theory Spec2Isabelle
  imports Main "HOL-Library.Char_ord" "HOL-Library.List_Lexorder" "HOL-Library.Multiset"
begin

text \<open>
  A model of the OpenAPI 3.0.0 normalizer: the document modeler \<open>run\<close> of src/modeler.ts
  (the version of lines 1 to 262, with its helpers), the computation of parameter formats of
  the later version in src/unnamed/part_001, and the reference resolver \<open>resolve\<close> of
  src/unnamed/part_002. A function that may throw returns a sum, with the error on the left.
\<close>

section \<open>Strings\<close>

text \<open>
  JavaScript strings are modelled as \<^typ>\<open>string\<close>. \<open>s.split(sep)\<close> with a one-character
  separator cuts \<open>s\<close> at every occurrence of the separator and always returns at least one
  fragment (\<open>"".split("{")\<close> is \<open>[""]\<close>).
\<close>

fun js_split :: "char \<Rightarrow> string \<Rightarrow> string list" where
  "js_split sep [] = [[]]"
| "js_split sep (c # cs) =
     (if c = sep then [] # js_split sep cs
      else (case js_split sep cs of
              [] \<Rightarrow> [[c]]
            | p # ps \<Rightarrow> (c # p) # ps))"

section \<open>Errors of the modeler (src/modeler.ts)\<close>

text \<open>One constructor for each \<open>throw\<close> of the modeler, named after its message.\<close>

datatype error =
    UnsupportedVersion string
  | InvalidPathFormat
  | EmptyParameterName
  | AllowEmptyValueNotQuery
  | PathParameterNotRequired
  | InvalidPathParameters
  | InvalidOperationParameters
  | PathParametersMismatch
  | InvalidStatusCodePattern string

section \<open>Path templates: \<open>parsePath\<close>\<close>

datatype PathComponent = Const string | Param string

type_synonym Path = "PathComponent list"

text \<open>
  The body of the loop \<open>for (const part of parts1)\<close>: \<open>acc\<close> is the array \<open>result\<close> built
  so far. \<open>parts2.shift() || throwEx(...)\<close> throws on the empty name, and
  \<open>parts2.shift() || ""\<close> is the text after the closing brace.
\<close>

fun parseParts :: "string list \<Rightarrow> Path \<Rightarrow> error + Path" where
  "parseParts [] acc = Inr acc"
| "parseParts (part # rest) acc =
     (let parts2 = js_split CHR ''}'' part in
      if length parts2 \<noteq> 2 then Inl InvalidPathFormat
      else (case parts2 of
              [] \<Rightarrow> Inl EmptyParameterName
            | name # parts2' \<Rightarrow>
                if name = [] then Inl EmptyParameterName
                else parseParts rest
                       (acc @ [Param name,
                               Const (case parts2' of [] \<Rightarrow> [] | v # _ \<Rightarrow> v)])))"

definition keepComponent :: "PathComponent \<Rightarrow> bool" where
  "keepComponent x = (case x of Const v \<Rightarrow> v \<noteq> [] | Param _ \<Rightarrow> True)"

definition parsePath :: "string \<Rightarrow> error + Path" where
  "parsePath path =
     (let parts1 = js_split CHR ''{'' path;
          first = (case parts1 of [] \<Rightarrow> [] | p # _ \<Rightarrow> p);
          parts1' = (case parts1 of [] \<Rightarrow> [] | _ # ps \<Rightarrow> ps)
      in case parseParts parts1' [Const first] of
           Inl e \<Rightarrow> Inl e
         | Inr result \<Rightarrow> Inr (filter keepComponent result))"

text \<open>Re-joining a component sequence: constants verbatim, parameters wrapped in braces.\<close>

fun renderComponent :: "PathComponent \<Rightarrow> string" where
  "renderComponent (Const v) = v"
| "renderComponent (Param n) = CHR ''{'' # n @ [CHR ''}'']"

definition joinPath :: "Path \<Rightarrow> string" where
  "joinPath p = concat (map renderComponent p)"

text \<open>
  Well-formed templates, read off the claim's words: scanning from the left, a \<open>{\<close> opens a
  placeholder, the placeholder's name is non-empty and holds no brace, and the next \<open>}\<close>
  closes it; no \<open>}\<close> stands outside a placeholder.
\<close>

datatype scan_state = Outside | Opened | InName

fun wellFormedFrom :: "scan_state \<Rightarrow> string \<Rightarrow> bool" where
  "wellFormedFrom st [] = (st = Outside)"
| "wellFormedFrom Outside (c # cs) =
     (if c = CHR ''{'' then wellFormedFrom Opened cs
      else if c = CHR ''}'' then False
      else wellFormedFrom Outside cs)"
| "wellFormedFrom Opened (c # cs) =
     (if c = CHR ''{'' \<or> c = CHR ''}'' then False else wellFormedFrom InName cs)"
| "wellFormedFrom InName (c # cs) =
     (if c = CHR ''{'' then False
      else if c = CHR ''}'' then wellFormedFrom Outside cs
      else wellFormedFrom InName cs)"

definition wellFormedTemplate :: "string \<Rightarrow> bool" where
  "wellFormedTemplate t = wellFormedFrom Outside t"


section \<open>\<open>JSON.stringify\<close> on strings\<close>

text \<open>
  \<open>JSON.stringify\<close> of a string: the string in double quotes, with the quote, the backslash
  and the control characters below U+0020 escaped (\<open>\b \t \n \f \r\<close> by their short forms, the
  others as \<open>\u00XX\<close> with lower-case hexadecimal digits), every other character verbatim.
\<close>

definition hexDigit :: "nat \<Rightarrow> char" where
  "hexDigit n = (if n < 10 then char_of (48 + n) else char_of (87 + n))"

definition jsonEscape :: "char \<Rightarrow> string" where
  "jsonEscape c =
     (if c = CHR 0x22 then [CHR 0x5C, CHR 0x22]
      else if c = CHR 0x5C then [CHR 0x5C, CHR 0x5C]
      else if c = CHR 0x08 then [CHR 0x5C, CHR ''b'']
      else if c = CHR 0x09 then [CHR 0x5C, CHR ''t'']
      else if c = CHR 0x0A then [CHR 0x5C, CHR ''n'']
      else if c = CHR 0x0C then [CHR 0x5C, CHR ''f'']
      else if c = CHR 0x0D then [CHR 0x5C, CHR ''r'']
      else if (of_char c :: nat) < 32
        then [CHR 0x5C, CHR ''u'', CHR ''0'', CHR ''0'',
              hexDigit (of_char c div 16), hexDigit (of_char c mod 16)]
      else [c])"

definition jsonString :: "string \<Rightarrow> string" where
  "jsonString s = CHR 0x22 # concat (map jsonEscape s) @ [CHR 0x22]"

text \<open>\<open>JSON.stringify\<close> of an array of strings: the quoted elements, comma-separated, in brackets.\<close>

fun commaJoin :: "string list \<Rightarrow> string" where
  "commaJoin [] = []"
| "commaJoin [x] = x"
| "commaJoin (x # y # zs) = x @ CHR '','' # commaJoin (y # zs)"

definition jsonStringArray :: "string list \<Rightarrow> string" where
  "jsonStringArray xs = CHR ''['' # commaJoin (map jsonString xs) @ [CHR '']'']"

section \<open>The input document (src/types/OpenApi.ts)\<close>

text \<open>
  The document objects, with the properties that \<open>run\<close> of src/modeler.ts reads or writes
  and, for a parameter, \<open>style\<close> and \<open>explode\<close>, which \<open>parseParameterBase\<close> of
  src/unnamed/part_001 reads. An optional property is an \<^typ>\<open>'a option\<close>, \<open>None\<close> for \<open>undefined\<close>. An object used as a
  dictionary is the list of its entries in the order of \<open>Object.keys\<close>.
\<close>

datatype location = InQuery | InHeader | InPath | InCookie

fun locationString :: "location \<Rightarrow> string" where
  "locationString InQuery = ''query''"
| "locationString InHeader = ''header''"
| "locationString InPath = ''path''"
| "locationString InCookie = ''cookie''"

datatype style = Matrix | Label | Form | Simple | SpaceDelimited | PipeDelimited | DeepObject

record ServerVariableObject =
  sv_enum :: "string list option"
  sv_default :: string
  sv_description :: "string option"

record ServerObject =
  so_url :: string
  so_description :: "string option"
  so_variables :: "(string \<times> ServerVariableObject) list option"

record ExternalDocumentationObject =
  ed_url :: string
  ed_description :: string

record TagObject =
  tg_name :: string
  tg_description :: string
  tg_externalDocs :: "ExternalDocumentationObject option"

record ParameterObject =
  po_name :: string
  po_in :: location
  po_description :: "string option"
  po_required :: "bool option"
  po_deprecated :: "bool option"
  po_allowEmptyValue :: "bool option"
  po_style :: "style option"
  po_explode :: "bool option"

text \<open>
  A header object of a response. The type declares it as a \<open>ParameterObject\<close>, but a header
  of a document carries neither \<open>name\<close> nor \<open>in\<close> until the modeler writes them, so both are
  optional here.
\<close>

record HeaderObject =
  ho_name :: "string option"
  ho_in :: "location option"
  ho_description :: "string option"
  ho_required :: "bool option"
  ho_deprecated :: "bool option"
  ho_allowEmptyValue :: "bool option"

record ResponseObject =
  ro_description :: "string option"
  ro_headers :: "(string \<times> HeaderObject) list option"

record OperationObject =
  oo_tags :: "string list option"
  oo_summary :: "string option"
  oo_description :: "string option"
  oo_externalDocs :: "ExternalDocumentationObject option"
  oo_operationId :: "string option"
  oo_parameters :: "ParameterObject list option"
  oo_responses :: "(string \<times> ResponseObject) list"
  oo_deprecated :: "bool option"
  oo_servers :: "ServerObject list option"

record PathItemObject =
  pi_summary :: "string option"
  pi_description :: "string option"
  pi_get :: "OperationObject option"
  pi_put :: "OperationObject option"
  pi_post :: "OperationObject option"
  pi_delete :: "OperationObject option"
  pi_options :: "OperationObject option"
  pi_head :: "OperationObject option"
  pi_patch :: "OperationObject option"
  pi_trace :: "OperationObject option"
  pi_servers :: "ServerObject list option"
  pi_parameters :: "ParameterObject list option"

record OpenAPIObject =
  oa_openapi :: string
  oa_servers :: "ServerObject list option"
  oa_paths :: "(string \<times> PathItemObject) list"
  oa_tags :: "TagObject list option"

datatype httpMethod = Get | Put | Post | Delete | Options | Head | Patch | Trace

definition httpMethods :: "httpMethod list" where
  "httpMethods = [Get, Put, Post, Delete, Options, Head, Patch, Trace]"

text \<open>\<open>pathObject[httpMethod]\<close>, read and (for the object the modeler has written to) stored back.\<close>

fun getOperation :: "httpMethod \<Rightarrow> PathItemObject \<Rightarrow> OperationObject option" where
  "getOperation Get p = pi_get p"
| "getOperation Put p = pi_put p"
| "getOperation Post p = pi_post p"
| "getOperation Delete p = pi_delete p"
| "getOperation Options p = pi_options p"
| "getOperation Head p = pi_head p"
| "getOperation Patch p = pi_patch p"
| "getOperation Trace p = pi_trace p"

fun setOperation :: "httpMethod \<Rightarrow> OperationObject \<Rightarrow> PathItemObject \<Rightarrow> PathItemObject" where
  "setOperation Get v p = p\<lparr>pi_get := Some v\<rparr>"
| "setOperation Put v p = p\<lparr>pi_put := Some v\<rparr>"
| "setOperation Post v p = p\<lparr>pi_post := Some v\<rparr>"
| "setOperation Delete v p = p\<lparr>pi_delete := Some v\<rparr>"
| "setOperation Options v p = p\<lparr>pi_options := Some v\<rparr>"
| "setOperation Head v p = p\<lparr>pi_head := Some v\<rparr>"
| "setOperation Patch v p = p\<lparr>pi_patch := Some v\<rparr>"
| "setOperation Trace v p = p\<lparr>pi_trace := Some v\<rparr>"


section \<open>The model (src/modeler.ts, lines 20 to 69)\<close>

text \<open>
  \<open>interface Parameter extends Header\<close> is a record extension. The property \<open>content\<close> of a
  header or parameter is the empty object in every result of this version and is left out.
\<close>

record Header =
  h_name :: string
  h_description :: "string option"
  h_required :: bool
  h_deprecated :: bool
  h_locationQueryAllowEmptyValue :: "bool option"

record Parameter = Header +
  p_location :: location

record Response =
  r_key :: string
  r_description :: "string option"
  r_headers :: "Header list"

record Server =
  s_urlPrefix :: Path
  s_description :: "string option"
  s_variables :: "(string \<times> ServerVariableObject) list"

record Method =
  m_urlSuffix :: Path
  m_tags :: "string list"
  m_summary :: "string option"
  m_description :: "string option"
  m_externalDocs :: "ExternalDocumentationObject option"
  m_operationId :: "string option"
  m_responses :: "Response list"
  m_parameters :: "Parameter list"
  m_deprecated :: bool
  m_servers :: "Server list"

record Model =
  operations :: "Method list"
  tags :: "TagObject list"

section \<open>JavaScript idioms\<close>

text \<open>\<open>b || false\<close> on an optional boolean, and \<open>a || b\<close> on optional strings (the empty string is falsy).\<close>

definition orFalse :: "bool option \<Rightarrow> bool" where
  "orFalse b = (case b of Some True \<Rightarrow> True | _ \<Rightarrow> False)"

definition orElse :: "string option \<Rightarrow> string option \<Rightarrow> string option" where
  "orElse a b = (case a of None \<Rightarrow> b | Some s \<Rightarrow> if s = [] then b else Some s)"

text \<open>
  \<open>xs.map(f)\<close> where \<open>f\<close> may throw: the first exception ends the loop.
\<close>

fun mapThrowing :: "('a \<Rightarrow> error + 'b) \<Rightarrow> 'a list \<Rightarrow> error + 'b list" where
  "mapThrowing f [] = Inr []"
| "mapThrowing f (x # xs) =
     (case f x of
        Inl e \<Rightarrow> Inl e
      | Inr y \<Rightarrow> (case mapThrowing f xs of Inl e \<Rightarrow> Inl e | Inr ys \<Rightarrow> Inr (y # ys)))"

section \<open>Servers and parameters (src/modeler.ts, lines 86 to 134)\<close>

definition parseServer :: "ServerObject \<Rightarrow> error + Server" where
  "parseServer server =
     (case parsePath (so_url server) of
        Inl e \<Rightarrow> Inl e
      | Inr p \<Rightarrow> Inr \<lparr> s_urlPrefix = p,
                       s_description = so_description server,
                       s_variables = (case so_variables server of None \<Rightarrow> [] | Some v \<Rightarrow> v) \<rparr>)"

text \<open>An array is truthy even when it is empty: only an absent list gives \<open>undefined\<close>.\<close>

definition parseServers :: "ServerObject list option \<Rightarrow> error + Server list option" where
  "parseServers servers =
     (case servers of
        None \<Rightarrow> Inr None
      | Some l \<Rightarrow> (case mapThrowing parseServer l of Inl e \<Rightarrow> Inl e | Inr r \<Rightarrow> Inr (Some r)))"

definition parseParameter :: "ParameterObject \<Rightarrow> error + Parameter" where
  "parseParameter parameter =
     (if po_in parameter \<noteq> InQuery \<and> po_allowEmptyValue parameter \<noteq> None
        then Inl AllowEmptyValueNotQuery
      else if po_in parameter = InPath \<and> \<not> orFalse (po_required parameter)
        then Inl PathParameterNotRequired
      else Inr \<lparr> h_name = po_name parameter,
                 h_description = po_description parameter,
                 h_required = orFalse (po_required parameter),
                 h_deprecated = orFalse (po_deprecated parameter),
                 h_locationQueryAllowEmptyValue = po_allowEmptyValue parameter,
                 p_location = po_in parameter \<rparr>)"

definition parseParameters :: "ParameterObject list option \<Rightarrow> error + Parameter list option" where
  "parseParameters parameters =
     (case parameters of
        None \<Rightarrow> Inr None
      | Some l \<Rightarrow> (case mapThrowing parseParameter l of Inl e \<Rightarrow> Inl e | Inr r \<Rightarrow> Inr (Some r)))"

definition getParameterKey :: "Parameter \<Rightarrow> string" where
  "getParameterKey parameter =
     jsonStringArray [h_name parameter, locationString (p_location parameter)]"

text \<open>
  \<open>keys.sort()\<close> orders strings by their code units, a proper prefix first: the
  lexicographic order of \<^typ>\<open>string\<close>. \<open>keys.some((key, index) => ...)\<close> looks for an index
  other than 0 whose key equals the one before it.
\<close>

definition checkParameters :: "Parameter list \<Rightarrow> bool" where
  "checkParameters parameter =
     (let keys = sort (map getParameterKey parameter) in
      \<not> list_ex (\<lambda>index. index \<noteq> 0 \<and> keys ! index = keys ! (index - 1)) [0..<length keys])"

section \<open>Assembling one operation (src/modeler.ts, lines 171 to 255)\<close>

text \<open>
  One round of the merge loop: an operation-level parameter replaces every entry of the list
  that has its key, and is appended when there is none.
\<close>

definition mergeParameter :: "Parameter list \<Rightarrow> Parameter \<Rightarrow> Parameter list" where
  "mergeParameter parameters param =
     (if list_ex (\<lambda>paramTarget. getParameterKey param = getParameterKey paramTarget) parameters
        then map (\<lambda>paramTarget.
                    if getParameterKey param = getParameterKey paramTarget then param
                    else paramTarget) parameters
      else parameters @ [param])"

definition mergeParameters :: "Parameter list \<Rightarrow> Parameter list \<Rightarrow> Parameter list" where
  "mergeParameters pathParameters operationParameters =
     foldl mergeParameter pathParameters operationParameters"

definition pathParamNames :: "Parameter list \<Rightarrow> string list" where
  "pathParamNames parameters = sort (map h_name (filter (\<lambda>x. p_location x = InPath) parameters))"

definition pathParamsExpected :: "Path \<Rightarrow> string list" where
  "pathParamsExpected path =
     sort (map the (filter (\<lambda>x. x \<noteq> None)
             (map (\<lambda>x. case x of Param n \<Rightarrow> Some n | Const _ \<Rightarrow> None) path)))"

text \<open>The test of line 197: the lengths differ, or some position holds different names.\<close>

definition namesMismatch :: "string list \<Rightarrow> string list \<Rightarrow> bool" where
  "namesMismatch a b =
     (length a \<noteq> length b \<or> \<not> list_all (\<lambda>i. a ! i = b ! i) [0..<length a])"

text \<open>The status key pattern \<open>/^[0-9X]{3}$/\<close> and the number of \<open>X\<close> in a key.\<close>

definition statusKeyMatches :: "string \<Rightarrow> bool" where
  "statusKeyMatches k =
     (length k = 3 \<and> list_all (\<lambda>c. (CHR ''0'' \<le> c \<and> c \<le> CHR ''9'') \<or> c = CHR ''X'') k)"

definition normalizeKey :: "string \<Rightarrow> string" where
  "normalizeKey responseKey = (if responseKey = ''default'' then ''XXX'' else responseKey)"

definition wildcards :: "string \<Rightarrow> nat" where
  "wildcards k = length (filter (\<lambda>c. c = CHR ''X'') k)"

text \<open>
  A response header (lines 217 to 224): the modeler writes \<open>name\<close> and \<open>in\<close> into the header
  object of the document, parses it as a parameter and drops the location of the result.
  The functions of this section return the result together with the document object as
  the pass leaves it, also when they throw.
\<close>

definition headerAsParameter :: "HeaderObject \<Rightarrow> ParameterObject" where
  "headerAsParameter h =
     \<lparr> po_name = (case ho_name h of Some n \<Rightarrow> n | None \<Rightarrow> []),
       po_in = (case ho_in h of Some l \<Rightarrow> l | None \<Rightarrow> InHeader),
       po_description = ho_description h,
       po_required = ho_required h,
       po_deprecated = ho_deprecated h,
       po_allowEmptyValue = ho_allowEmptyValue h,
       po_style = None,
       po_explode = None \<rparr>"

definition dropLocation :: "Parameter \<Rightarrow> Header" where
  "dropLocation p =
     \<lparr> h_name = h_name p,
       h_description = h_description p,
       h_required = h_required p,
       h_deprecated = h_deprecated p,
       h_locationQueryAllowEmptyValue = h_locationQueryAllowEmptyValue p \<rparr>"

definition markHeader :: "string \<Rightarrow> HeaderObject \<Rightarrow> HeaderObject" where
  "markHeader name h = h\<lparr> ho_name := Some name, ho_in := Some InHeader \<rparr>"

fun parseHeaders ::
  "(string \<times> HeaderObject) list \<Rightarrow> (error + Header list) \<times> (string \<times> HeaderObject) list" where
  "parseHeaders [] = (Inr [], [])"
| "parseHeaders ((name, h) # rest) =
     (let param = markHeader name h in
      case parseParameter (headerAsParameter param) of
        Inl e \<Rightarrow> (Inl e, (name, param) # rest)
      | Inr result \<Rightarrow>
          (case parseHeaders rest of
             (Inl e, rest') \<Rightarrow> (Inl e, (name, param) # rest')
           | (Inr hs, rest') \<Rightarrow> (Inr (dropLocation result # hs), (name, param) # rest')))"

text \<open>The loop over \<open>responseKeys\<close> (lines 208 to 239), before the sort.\<close>

fun parseResponses ::
  "(string \<times> ResponseObject) list \<Rightarrow> (error + Response list) \<times> (string \<times> ResponseObject) list" where
  "parseResponses [] = (Inr [], [])"
| "parseResponses ((responseKey, responseObject) # rest) =
     (let key = normalizeKey responseKey in
      if \<not> statusKeyMatches key
        then (Inl (InvalidStatusCodePattern key), (responseKey, responseObject) # rest)
      else
        (case (case ro_headers responseObject of
                 None \<Rightarrow> (Inr [], None)
               | Some headers \<Rightarrow> (case parseHeaders headers of (r, hs') \<Rightarrow> (r, Some hs'))) of
           (Inl e, hs') \<Rightarrow> (Inl e, (responseKey, responseObject\<lparr> ro_headers := hs' \<rparr>) # rest)
         | (Inr headersAsParams, hs') \<Rightarrow>
             (case parseResponses rest of
                (r, rest') \<Rightarrow>
                  ((case r of
                      Inl e \<Rightarrow> Inl e
                    | Inr rs \<Rightarrow> Inr (\<lparr> r_key = key,
                                        r_description = ro_description responseObject,
                                        r_headers = headersAsParams \<rparr> # rs)),
                   (responseKey, responseObject\<lparr> ro_headers := hs' \<rparr>) # rest'))))"

text \<open>
  \<open>responses.sort(comparator)\<close>: the comparator is the difference of the numbers of \<open>X\<close>, and
  the sort is stable, as the language requires of \<open>Array.prototype.sort\<close> since ECMAScript 2019.
\<close>

definition sortResponses :: "Response list \<Rightarrow> Response list" where
  "sortResponses responses = sort_key (\<lambda>r. wildcards (r_key r)) responses"

text \<open>
  The body of \<open>if (operationObject)\<close>, for the operation \<open>operationObject\<close> of a path item whose
  template, summary, description, servers and parameters are already parsed.
\<close>

definition runOperation ::
  "Path \<Rightarrow> string option \<Rightarrow> string option \<Rightarrow> Server list \<Rightarrow> Parameter list \<Rightarrow>
   OperationObject \<Rightarrow> (error + Method) \<times> OperationObject" where
  "runOperation path pathSummary pathDescription pathServers pathParameters operationObject =
     (case parseServers (oo_servers operationObject) of
        Inl e \<Rightarrow> (Inl e, operationObject)
      | Inr os \<Rightarrow>
     (let operationServers = (case os of Some l \<Rightarrow> l | None \<Rightarrow> pathServers) in
      case parseParameters (oo_parameters operationObject) of
        Inl e \<Rightarrow> (Inl e, operationObject)
      | Inr ops \<Rightarrow>
     (let operationParameters = (case ops of Some l \<Rightarrow> l | None \<Rightarrow> []) in
      if \<not> checkParameters pathParameters then (Inl InvalidOperationParameters, operationObject)
      else
     (let parameters = mergeParameters pathParameters operationParameters in
      if namesMismatch (pathParamNames parameters) (pathParamsExpected path)
        then (Inl PathParametersMismatch, operationObject)
      else
     (case parseResponses (oo_responses operationObject) of
        (r, responses') \<Rightarrow>
          ((case r of
              Inl e \<Rightarrow> Inl e
            | Inr responses \<Rightarrow>
                Inr \<lparr> m_urlSuffix = path,
                      m_tags = (case oo_tags operationObject of Some t \<Rightarrow> t | None \<Rightarrow> []),
                      m_summary = orElse (oo_summary operationObject) pathSummary,
                      m_description = orElse (oo_description operationObject) pathDescription,
                      m_externalDocs = oo_externalDocs operationObject,
                      m_operationId = oo_operationId operationObject,
                      m_responses = sortResponses responses,
                      m_parameters = parameters,
                      m_deprecated = orFalse (oo_deprecated operationObject),
                      m_servers = operationServers \<rparr>),
           operationObject\<lparr> oo_responses := responses' \<rparr>))))))"


section \<open>\<open>run\<close> (src/modeler.ts, lines 136 to 262)\<close>

text \<open>The loop \<open>for (const httpMethod of httpMethods)\<close> of one path item.\<close>

fun runMethods ::
  "Path \<Rightarrow> string option \<Rightarrow> string option \<Rightarrow> Server list \<Rightarrow> Parameter list \<Rightarrow>
   httpMethod list \<Rightarrow> PathItemObject \<Rightarrow> (error + Method list) \<times> PathItemObject" where
  "runMethods path pathSummary pathDescription pathServers pathParameters [] pathObject =
     (Inr [], pathObject)"
| "runMethods path pathSummary pathDescription pathServers pathParameters (httpMethod # ms) pathObject =
     (case getOperation httpMethod pathObject of
        None \<Rightarrow> runMethods path pathSummary pathDescription pathServers pathParameters ms pathObject
      | Some operationObject \<Rightarrow>
          (case runOperation path pathSummary pathDescription pathServers pathParameters
                  operationObject of
             (Inl e, operationObject') \<Rightarrow>
               (Inl e, setOperation httpMethod operationObject' pathObject)
           | (Inr method, operationObject') \<Rightarrow>
               (case runMethods path pathSummary pathDescription pathServers pathParameters ms
                       (setOperation httpMethod operationObject' pathObject) of
                  (Inl e, pathObject') \<Rightarrow> (Inl e, pathObject')
                | (Inr methods, pathObject') \<Rightarrow> (Inr (method # methods), pathObject'))))"

text \<open>The body of the loop \<open>for (const rawPath of Object.keys(openapiDefinition.paths))\<close>.\<close>

definition runPathItem ::
  "Server list \<Rightarrow> string \<Rightarrow> PathItemObject \<Rightarrow> (error + Method list) \<times> PathItemObject" where
  "runPathItem servers rawPath pathObject =
     (case parsePath rawPath of
        Inl e \<Rightarrow> (Inl e, pathObject)
      | Inr path \<Rightarrow>
     (case parseServers (pi_servers pathObject) of
        Inl e \<Rightarrow> (Inl e, pathObject)
      | Inr ps \<Rightarrow>
     (let pathServers = (case ps of Some l \<Rightarrow> l | None \<Rightarrow> servers) in
      case parseParameters (pi_parameters pathObject) of
        Inl e \<Rightarrow> (Inl e, pathObject)
      | Inr pp \<Rightarrow>
     (let pathParameters = (case pp of Some l \<Rightarrow> l | None \<Rightarrow> []) in
      if \<not> checkParameters pathParameters then (Inl InvalidPathParameters, pathObject)
      else runMethods path (pi_summary pathObject) (pi_description pathObject)
             pathServers pathParameters httpMethods pathObject))))"

fun runPaths ::
  "Server list \<Rightarrow> (string \<times> PathItemObject) list \<Rightarrow>
   (error + Method list) \<times> (string \<times> PathItemObject) list" where
  "runPaths servers [] = (Inr [], [])"
| "runPaths servers ((rawPath, pathObject) # rest) =
     (case runPathItem servers rawPath pathObject of
        (Inl e, pathObject') \<Rightarrow> (Inl e, (rawPath, pathObject') # rest)
      | (Inr methods, pathObject') \<Rightarrow>
          (case runPaths servers rest of
             (Inl e, rest') \<Rightarrow> (Inl e, (rawPath, pathObject') # rest')
           | (Inr methods', rest') \<Rightarrow> (Inr (methods @ methods'), (rawPath, pathObject') # rest')))"

text \<open>
  \<open>run\<close> returns the model, or the error it throws, together with the document as the pass
  leaves it. The document-level server list is the declared one, or the single server
  \<open>/\<close> when none is declared.
\<close>

definition run :: "OpenAPIObject \<Rightarrow> (error + Model) \<times> OpenAPIObject" where
  "run openapiDefinition =
     (if oa_openapi openapiDefinition \<noteq> ''3.0.0''
        then (Inl (UnsupportedVersion (oa_openapi openapiDefinition)), openapiDefinition)
      else
     (case parseServers (oa_servers openapiDefinition) of
        Inl e \<Rightarrow> (Inl e, openapiDefinition)
      | Inr sv \<Rightarrow>
     (let servers = (case sv of Some l \<Rightarrow> l | None \<Rightarrow> []) in
      case (if length servers = 0
              then (case parsePath ''/'' of
                      Inl e \<Rightarrow> Inl e
                    | Inr p \<Rightarrow> Inr (servers @ [\<lparr> s_urlPrefix = p, s_description = None,
                                                 s_variables = [] \<rparr>]))
            else Inr servers) of
        Inl e \<Rightarrow> (Inl e, openapiDefinition)
      | Inr servers' \<Rightarrow>
     (case runPaths servers' (oa_paths openapiDefinition) of
        (r, paths') \<Rightarrow>
          ((case r of
              Inl e \<Rightarrow> Inl e
            | Inr ms \<Rightarrow>
                Inr \<lparr> operations = ms,
                      tags = (case oa_tags openapiDefinition of Some t \<Rightarrow> t | None \<Rightarrow> []) \<rparr>),
           openapiDefinition\<lparr> oa_paths := paths' \<rparr>)))))"

section \<open>Parameter formats (src/unnamed/part_001, lines 127 to 207)\<close>

record Format =
  f_style :: style
  f_explode :: bool

text \<open>
  \<open>normalizeFormat\<close> takes the location and an object with optional \<open>style\<close> and \<open>explode\<close>.
  \<open>obj.style || d\<close> is the declared style when there is one (a style name is never the
  empty string); \<open>obj.explode || e\<close> is \<open>e\<close> unless \<open>explode\<close> is declared \<open>true\<close>.
\<close>

definition normalizeFormat :: "location \<Rightarrow> style option \<Rightarrow> bool option \<Rightarrow> Format" where
  "normalizeFormat location obj_style obj_explode =
     (let style = (case obj_style of
                     Some s \<Rightarrow> s
                   | None \<Rightarrow> if location = InQuery \<or> location = InCookie then Form else Simple);
          explode = (case obj_explode of Some True \<Rightarrow> True | _ \<Rightarrow> style = Form)
      in \<lparr> f_style = style, f_explode = explode \<rparr>)"

text \<open>
  \<open>parseParameterBase\<close> of this version, without the property \<open>content\<close> of its result (it is
  built from \<open>schema\<close>, \<open>example\<close>, \<open>examples\<close> and \<open>content\<close>, which the records above leave out;
  building it throws nothing and the format does not depend on it).
\<close>

record ParameterBase =
  pb_name :: string
  pb_description :: "string option"
  pb_required :: bool
  pb_deprecated :: bool
  pb_format :: Format

definition parseParameterBase :: "ParameterObject \<Rightarrow> error + ParameterBase" where
  "parseParameterBase parameter =
     (let location = po_in parameter in
      if location = InPath \<and> \<not> orFalse (po_required parameter)
        then Inl PathParameterNotRequired
      else
     (let style = (case po_style parameter of
                     Some s \<Rightarrow> s
                   | None \<Rightarrow> if location = InQuery \<or> location = InCookie then Form else Simple);
          explode = (case po_explode parameter of Some True \<Rightarrow> True | _ \<Rightarrow> style = Form)
      in Inr \<lparr> pb_name = po_name parameter,
               pb_description = po_description parameter,
               pb_required = orFalse (po_required parameter),
               pb_deprecated = orFalse (po_deprecated parameter),
               pb_format = \<lparr> f_style = style, f_explode = explode \<rparr> \<rparr>))"

section \<open>The order of the keys of an object\<close>

text \<open>
  A JavaScript object lists its own string keys (\<open>Object.keys\<close>, \<open>for ... in\<close>) in a fixed
  order: first the keys that are array indices (the decimal numerals of the integers from 0
  to 4294967294, without leading zeros), in ascending numeric order, then all other keys in
  the order in which the properties were created. So the object that a loader builds by
  defining the properties \<open>decl\<close> one after the other is, as a list of entries in the
  order of its keys, \<open>ownPropertyOrder decl\<close>; the order of the declarations is kept among
  the keys that are no array indices and lost among those that are.
\<close>

definition decimalValue :: "string \<Rightarrow> nat" where
  "decimalValue k = foldl (\<lambda>n c. 10 * n + (of_char c - 48)) 0 k"

definition isArrayIndex :: "string \<Rightarrow> bool" where
  "isArrayIndex k =
     (k \<noteq> [] \<and> list_all (\<lambda>c. CHR ''0'' \<le> c \<and> c \<le> CHR ''9'') k \<and>
      (k = ''0'' \<or> hd k \<noteq> CHR ''0'') \<and> decimalValue k < 4294967295)"

definition ownPropertyOrder :: "(string \<times> 'a) list \<Rightarrow> (string \<times> 'a) list" where
  "ownPropertyOrder decl =
     sort_key (\<lambda>e. decimalValue (fst e)) (filter (\<lambda>e. isArrayIndex (fst e)) decl) @
     filter (\<lambda>e. \<not> isArrayIndex (fst e)) decl"

section \<open>The reference resolver (src/unnamed/part_002)\<close>

text \<open>
  The document as \<open>nodes\<close> of the jsonpath package sees it on entry: a JSON value. Numbers
  are integers here; only whether a number is zero matters below.
\<close>

datatype json =
    JNull
  | JBool bool
  | JNum int
  | JStr string
  | JArr "json list"
  | JObj "(string \<times> json) list"

datatype pathKey = Key string | Index nat

type_synonym jpath = "pathKey list"

definition truthy :: "json \<Rightarrow> bool" where
  "truthy v = (case v of
                 JNull \<Rightarrow> False
               | JBool b \<Rightarrow> b
               | JNum n \<Rightarrow> n \<noteq> 0
               | JStr s \<Rightarrow> s \<noteq> []
               | JArr _ \<Rightarrow> True
               | JObj _ \<Rightarrow> True)"

text \<open>\<open>value.$ref\<close>: the property of an object, \<open>undefined\<close> (\<open>None\<close>) on everything else.\<close>

definition refOf :: "json \<Rightarrow> json option" where
  "refOf v = (case v of JObj kvs \<Rightarrow> map_of kvs ''$ref'' | _ \<Rightarrow> None)"

text \<open>The filter \<open>?(@.$ref)\<close>.\<close>

definition hasRef :: "json \<Rightarrow> bool" where
  "hasRef v = (case refOf v of Some r \<Rightarrow> truthy r | None \<Rightarrow> False)"

definition children :: "json \<Rightarrow> (pathKey \<times> json) list" where
  "children v = (case v of
                   JArr xs \<Rightarrow> zip (map Index [0..<length xs]) xs
                 | JObj kvs \<Rightarrow> map (\<lambda>(k, c). (Key k, c)) kvs
                 | _ \<Rightarrow> [])"

text \<open>
  The package's traversal for \<open>..*\<close>: at each value, first its children in key order, then
  the descendants of each child in turn. The root itself is not among the results.
\<close>

function descendants :: "jpath \<Rightarrow> json \<Rightarrow> (jpath \<times> json) list" where
  "descendants p v =
     map (\<lambda>(k, c). (p @ [k], c)) (children v) @
     concat (map (\<lambda>(k, c). descendants (p @ [k]) c) (children v))"
  by pat_completeness auto

termination descendants
proof (relation "measure (\<lambda>(p, v). size v)")
  show "wf (measure (\<lambda>(p, v). size v))" by simp
next
  fix p :: jpath and v :: json and x :: "pathKey \<times> json" and k c
  assume "x \<in> set (children v)" "(k, c) = x"
  then have mem: "(k, c) \<in> set (children v)" by simp
  have "size c < size v"
  proof (cases v)
    case (JArr xs)
    with mem have "c \<in> set xs" by (auto simp: children_def dest: set_zip_rightD)
    then have "size c \<le> size_list size xs" by (rule size_list_estimation') simp
    with JArr show ?thesis by simp
  next
    case (JObj kvs)
    with mem obtain k' where "(k', c) \<in> set kvs" by (auto simp: children_def)
    then have "size_prod (\<lambda>_. 0) size (k', c) \<le> size_list (size_prod (\<lambda>_. 0) size) kvs"
      by (rule size_list_estimation') simp
    with JObj show ?thesis by simp
  qed (use mem in \<open>auto simp: children_def\<close>)
  then show "((p @ [k], c), (p, v)) \<in> measure (\<lambda>(p, v). size v)" by simp
qed

declare descendants.simps [simp del]

text \<open>
  \<open>nodes($, "$..*[?(@.$ref)]")\<close>: for every descendant of the root, in traversal order,
  those of its children that pass the filter.
\<close>

definition nodes :: "json \<Rightarrow> (jpath \<times> json) list" where
  "nodes doc =
     concat (map (\<lambda>(p, d). filter (\<lambda>(q, c). hasRef c) (map (\<lambda>(k, c). (p @ [k], c)) (children d)))
               (descendants [] doc))"

text \<open>A value with a \<open>$ref\<close> property anywhere in it, the root included.\<close>

definition containsRef :: "json \<Rightarrow> bool" where
  "containsRef doc =
     (refOf doc \<noteq> None \<or> list_ex (\<lambda>(p, d). refOf d \<noteq> None) (descendants [] doc))"

text \<open>\<open>s.replace(/ab/g, r)\<close> for a two-character pattern, and the decoding of a pointer segment.\<close>

fun replace2 :: "char \<Rightarrow> char \<Rightarrow> string \<Rightarrow> string \<Rightarrow> string" where
  "replace2 a b r (c # d # s) =
     (if c = a \<and> d = b then r @ replace2 a b r s else c # replace2 a b r (d # s))"
| "replace2 a b r s = s"

definition decodePart :: "string \<Rightarrow> string" where
  "decodePart part = replace2 CHR ''~'' CHR ''0'' ''~'' (replace2 CHR ''~'' CHR ''1'' ''/'' part)"

definition startsWithHash :: "string \<Rightarrow> bool" where
  "startsWithHash s = (case s of [] \<Rightarrow> False | c # _ \<Rightarrow> c = CHR ''#'')"

text \<open>
  The errors of \<open>resolve\<close>: its own \<open>throw\<close>, the \<open>TypeError\<close> of \<open>sourceRef.split\<close> on a
  \<open>$ref\<close> that is no string, and whatever an \<open>eval\<close> throws.
\<close>

datatype 'x resolve_error = InvalidSyntaxOfLocalReference | SplitIsNotAFunction | EvalThrew 'x

text \<open>
  The loop body. The two assignments are code strings handed to \<open>eval\<close>; what they do to
  the object graph is the JavaScript engine's business, so \<open>eval\<close> is a parameter: it takes
  the code and the heap \<open>w\<close> holding the graph and returns the new heap or the exception
  thrown. \<open>stringify\<close> of the jsonpath package, whose result only goes into the code, is a
  parameter as well.
\<close>

definition resolveHit ::
  "(string \<Rightarrow> 'w \<Rightarrow> 'x + 'w) \<Rightarrow> (jpath \<Rightarrow> string) \<Rightarrow> jpath \<times> json \<Rightarrow> 'w \<Rightarrow>
   'x resolve_error + 'w" where
  "resolveHit evalJS stringify hit w =
     (case refOf (snd hit) of
        Some (JStr sourceRef) \<Rightarrow>
          (let targetPath = stringify (fst hit);
               sourceRefParts = js_split CHR ''/'' sourceRef;
               first = (case sourceRefParts of [] \<Rightarrow> [] | p # _ \<Rightarrow> p);
               sourceRefParts' = (case sourceRefParts of [] \<Rightarrow> [] | _ # ps \<Rightarrow> ps)
           in if \<not> startsWithHash first then Inl InvalidSyntaxOfLocalReference
              else
                (let sourceRefPartsDecoded = map decodePart sourceRefParts';
                     sourcePath = CHR ''$'' #
                       concat (map (\<lambda>part. CHR ''['' # jsonString part @ [CHR '']''])
                                 sourceRefPartsDecoded)
                 in case evalJS (sourcePath @ ''.$path = '' @ jsonStringArray sourceRefPartsDecoded) w of
                      Inl x \<Rightarrow> Inl (EvalThrew x)
                    | Inr w' \<Rightarrow>
                        (case evalJS (targetPath @ '' = '' @ sourcePath) w' of
                           Inl x \<Rightarrow> Inl (EvalThrew x)
                         | Inr w'' \<Rightarrow> Inr w'')))
      | _ \<Rightarrow> Inl SplitIsNotAFunction)"

fun resolveHits ::
  "(string \<Rightarrow> 'w \<Rightarrow> 'x + 'w) \<Rightarrow> (jpath \<Rightarrow> string) \<Rightarrow> (jpath \<times> json) list \<Rightarrow> 'w \<Rightarrow>
   'x resolve_error + 'w" where
  "resolveHits evalJS stringify [] w = Inr w"
| "resolveHits evalJS stringify (hit # hits) w =
     (case resolveHit evalJS stringify hit w of
        Inl e \<Rightarrow> Inl e
      | Inr w' \<Rightarrow> resolveHits evalJS stringify hits w')"

text \<open>\<open>resolve($)\<close>, for the document \<open>doc\<close> held in the heap \<open>w\<close>.\<close>

definition resolve ::
  "(string \<Rightarrow> 'w \<Rightarrow> 'x + 'w) \<Rightarrow> (jpath \<Rightarrow> string) \<Rightarrow> json \<Rightarrow> 'w \<Rightarrow> 'x resolve_error + 'w" where
  "resolve evalJS stringify doc w = resolveHits evalJS stringify (nodes doc) w"

section \<open>Notions used in the proofs\<close>

text \<open>
  A fragment after a \<open>{\<close> that \<open>parsePath\<close> accepts: it holds exactly one \<open>}\<close>, and (when
  \<open>ne\<close> is set) a name before it.
\<close>

definition goodPart :: "bool \<Rightarrow> string \<Rightarrow> bool" where
  "goodPart ne p = (\<exists>n v. js_split CHR ''}'' p = [n, v] \<and> (ne \<longrightarrow> n \<noteq> []))"

section \<open>Example documents\<close>

text \<open>Objects with every optional property absent, to build the examples from.\<close>

definition plainParameter :: "string \<Rightarrow> location \<Rightarrow> ParameterObject" where
  "plainParameter n l =
     \<lparr> po_name = n, po_in = l, po_description = None, po_required = None,
       po_deprecated = None, po_allowEmptyValue = None, po_style = None, po_explode = None \<rparr>"

definition plainHeader :: HeaderObject where
  "plainHeader =
     \<lparr> ho_name = None, ho_in = None, ho_description = None, ho_required = None,
       ho_deprecated = None, ho_allowEmptyValue = None \<rparr>"

definition plainResponse :: ResponseObject where
  "plainResponse = \<lparr> ro_description = None, ro_headers = None \<rparr>"

definition plainOperation :: "(string \<times> ResponseObject) list \<Rightarrow> OperationObject" where
  "plainOperation rs =
     \<lparr> oo_tags = None, oo_summary = None, oo_description = None, oo_externalDocs = None,
       oo_operationId = None, oo_parameters = None, oo_responses = rs,
       oo_deprecated = None, oo_servers = None \<rparr>"

definition plainPathItem :: PathItemObject where
  "plainPathItem =
     \<lparr> pi_summary = None, pi_description = None, pi_get = None, pi_put = None,
       pi_post = None, pi_delete = None, pi_options = None, pi_head = None,
       pi_patch = None, pi_trace = None, pi_servers = None, pi_parameters = None \<rparr>"

definition plainDocument :: "(string \<times> PathItemObject) list \<Rightarrow> OpenAPIObject" where
  "plainDocument ps =
     \<lparr> oa_openapi = ''3.0.0'', oa_servers = None, oa_paths = ps, oa_tags = None \<rparr>"

text \<open>
  \<open>GET /pets\<close> declaring the query parameter \<open>limit\<close> twice in the operation's own list.
\<close>

definition duplicateOperation :: OperationObject where
  "duplicateOperation =
     (plainOperation [(''200'', plainResponse), (''default'', plainResponse)])
       \<lparr> oo_parameters := Some [plainParameter ''limit'' InQuery,
                                (plainParameter ''limit'' InQuery)\<lparr> po_required := Some True \<rparr>] \<rparr>"

definition duplicateDocument :: OpenAPIObject where
  "duplicateDocument =
     plainDocument [(''/pets'', plainPathItem\<lparr> pi_get := Some duplicateOperation \<rparr>)]"

text \<open>A query parameter that declares \<open>explode: false\<close> and no style.\<close>

definition unexplodedParameter :: ParameterObject where
  "unexplodedParameter = (plainParameter ''ids'' InQuery)\<lparr> po_explode := Some False \<rparr>"

text \<open>
  A document with one declared server whose path item \<open>/pets\<close> declares \<open>servers: []\<close>, and
  whose path item \<open>/toys\<close> has an operation that declares \<open>servers: []\<close>.
\<close>

definition apiServer :: ServerObject where
  "apiServer = \<lparr> so_url = ''https://api.example.com/v1'', so_description = None,
                  so_variables = None \<rparr>"

definition noServersPathItem :: PathItemObject where
  "noServersPathItem =
     plainPathItem\<lparr> pi_get := Some (plainOperation [(''200'', plainResponse)]),
                    pi_servers := Some [] \<rparr>"

definition noServersOperation :: OperationObject where
  "noServersOperation = (plainOperation [(''200'', plainResponse)])\<lparr> oo_servers := Some [] \<rparr>"

definition noServersDocument :: OpenAPIObject where
  "noServersDocument =
     (plainDocument [(''/pets'', noServersPathItem),
                     (''/toys'', plainPathItem\<lparr> pi_post := Some noServersOperation \<rparr>)])
       \<lparr> oa_servers := Some [apiServer] \<rparr>"

text \<open>
  An operation whose responses are enumerated as \<open>200\<close>, \<open>404\<close>, \<open>default\<close>, \<open>5XX\<close>, \<open>4XX\<close>.
\<close>

definition statusOperation :: OperationObject where
  "statusOperation =
     plainOperation
       [(''200'', plainResponse\<lparr> ro_description := Some ''ok'' \<rparr>),
        (''404'', plainResponse\<lparr> ro_description := Some ''not found'' \<rparr>),
        (''default'', plainResponse\<lparr> ro_description := Some ''unexpected'' \<rparr>),
        (''5XX'', plainResponse\<lparr> ro_description := Some ''server error'' \<rparr>),
        (''4XX'', plainResponse\<lparr> ro_description := Some ''client error'' \<rparr>)]"

definition statusDocument :: OpenAPIObject where
  "statusDocument = plainDocument [(''/pets'', plainPathItem\<lparr> pi_get := Some statusOperation \<rparr>)]"

text \<open>
  An operation whose document declares the response \<open>404\<close> before the response \<open>200\<close>, and
  \<open>4XX\<close> before \<open>2XX\<close>.
\<close>

definition declaredResponses :: "(string \<times> ResponseObject) list" where
  "declaredResponses =
     [(''404'', plainResponse\<lparr> ro_description := Some ''not found'' \<rparr>),
      (''4XX'', plainResponse\<lparr> ro_description := Some ''client error'' \<rparr>),
      (''200'', plainResponse\<lparr> ro_description := Some ''ok'' \<rparr>),
      (''2XX'', plainResponse\<lparr> ro_description := Some ''success'' \<rparr>)]"

definition declaredOperation :: OperationObject where
  "declaredOperation = plainOperation (ownPropertyOrder declaredResponses)"

definition declaredDocument :: OpenAPIObject where
  "declaredDocument =
     plainDocument [(''/pets'', plainPathItem\<lparr> pi_get := Some declaredOperation \<rparr>)]"

text \<open>\<open>GET /pets\<close> whose only response has the key \<open>20\<close>.\<close>

definition badStatusDocument :: OpenAPIObject where
  "badStatusDocument =
     plainDocument
       [(''/pets'', plainPathItem\<lparr> pi_get := Some (plainOperation [(''20'', plainResponse)]) \<rparr>)]"

text \<open>
  \<open>GET /pets/{id}\<close> with the path parameter \<open>id\<close> declared as required, and the same path
  whose operation declares no parameter.
\<close>

definition petByIdOperation :: OperationObject where
  "petByIdOperation =
     (plainOperation [(''200'', plainResponse)])
       \<lparr> oo_parameters := Some [(plainParameter ''id'' InPath)\<lparr> po_required := Some True \<rparr>] \<rparr>"

definition petByIdDocument :: OpenAPIObject where
  "petByIdDocument =
     plainDocument [(''/pets/{id}'', plainPathItem\<lparr> pi_get := Some petByIdOperation \<rparr>)]"

definition undeclaredIdDocument :: OpenAPIObject where
  "undeclaredIdDocument =
     plainDocument [(''/pets/{id}'',
                     plainPathItem\<lparr> pi_get := Some (plainOperation [(''200'', plainResponse)]) \<rparr>)]"

text \<open>
  Examples for the resolver: a schema property that refers to a local schema, one that refers
  to another document, and a document without any reference. The stand-in for \<open>eval\<close> in
  the examples records the code it is given; the one that always throws shows that \<open>eval\<close>
  is not reached.
\<close>

definition localHit :: "jpath \<times> json" where
  "localHit =
     ([Key ''components'', Key ''schemas'', Key ''Pets'', Key ''items''],
      JObj [(''$ref'', JStr ''#/components/schemas/Pet'')])"

definition remoteHit :: "jpath \<times> json" where
  "remoteHit =
     ([Key ''components'', Key ''schemas'', Key ''Pets'', Key ''items''],
      JObj [(''$ref'', JStr ''other.yaml#/components/schemas/Pet'')])"

definition recordingEval :: "string \<Rightarrow> string list \<Rightarrow> unit + string list" where
  "recordingEval code w = Inr (w @ [code])"

definition throwingEval :: "string \<Rightarrow> string list \<Rightarrow> unit + string list" where
  "throwingEval code w = Inl ()"

definition plainJsonDocument :: json where
  "plainJsonDocument =
     JObj [(''openapi'', JStr ''3.0.0''),
           (''paths'',
            JObj [(''/pets'',
                   JObj [(''get'',
                          JObj [(''tags'', JArr [JStr ''pets'']),
                                (''responses'',
                                 JObj [(''200'', JObj [(''description'', JStr ''ok'')])])])])])]"

section \<open>What the modeling pass may change in the document\<close>











section \<open>Properties of \<open>parsePath\<close>\<close>

lemma js_split_not_Nil: "js_split c s \<noteq> []"
  by (induction s) (auto split: list.splits)

lemma js_split_join: "js_split c s = p # ps \<Longrightarrow> s = p @ concat (map (\<lambda>q. c # q) ps)"
proof (induction s arbitrary: p ps)
  case Nil
  then show ?case by simp
next
  case (Cons a s)
  obtain q qs where q: "js_split c s = q # qs"
    using js_split_not_Nil [of c s] by (cases "js_split c s") auto
  have s: "s = q @ concat (map (\<lambda>r. c # r) qs)" by (rule Cons.IH [OF q])
  show ?case
  proof (cases "a = c")
    case True
    with Cons.prems q have "p = []" "ps = q # qs" by auto
    then show ?thesis using s True by simp
  next
    case False
    with Cons.prems q have "p = a # q" "ps = qs" by auto
    then show ?thesis using s by simp
  qed
qed

lemma joinPath_append: "joinPath (a @ b) = joinPath a @ joinPath b"
  by (simp add: joinPath_def)

lemma parseParts_join:
  "parseParts parts acc = Inr res \<Longrightarrow>
   joinPath res = joinPath acc @ concat (map (\<lambda>q. CHR ''{'' # q) parts)"
proof (induction parts arbitrary: acc)
  case Nil
  then show ?case by simp
next
  case (Cons part rest)
  from Cons.prems obtain name v where
    sp: "js_split CHR ''}'' part = [name, v]" and
    rec: "parseParts rest (acc @ [Param name, Const v]) = Inr res"
    by (auto simp: Let_def split: if_splits list.splits)
  from js_split_join [OF sp] have part: "part = name @ CHR ''}'' # v" by simp
  from Cons.IH [OF rec] show ?case
    by (simp add: joinPath_append part) (simp add: joinPath_def)
qed

lemma joinPath_filter: "joinPath (filter keepComponent p) = joinPath p"
  by (induction p) (auto simp: joinPath_def keepComponent_def split: PathComponent.splits)

lemma parsePath_join: "parsePath t = Inr cs \<Longrightarrow> joinPath cs = t"
proof -
  assume a: "parsePath t = Inr cs"
  obtain p ps where sp: "js_split CHR ''{'' t = p # ps"
    using js_split_not_Nil [of "CHR ''{''" t] by (cases "js_split CHR ''{'' t") auto
  from a sp obtain res where r: "parseParts ps [Const p] = Inr res"
    and cs: "cs = filter keepComponent res"
    by (auto simp: parsePath_def split: sum.splits)
  from parseParts_join [OF r] js_split_join [OF sp] show ?thesis
    by (simp add: cs joinPath_filter) (simp add: joinPath_def)
qed

lemma wellFormed_split:
  "wellFormedFrom st s \<Longrightarrow>
   (\<exists>p ps. js_split CHR ''{'' s = p # ps \<and> (\<forall>q \<in> set ps. goodPart True q) \<and>
      (case st of Outside \<Rightarrow> js_split CHR ''}'' p = [p]
               | Opened \<Rightarrow> goodPart True p | InName \<Rightarrow> goodPart False p))"
proof (induction st s rule: wellFormedFrom.induct)
  case (1 st)
  then show ?case by simp
next
  case (2 c cs)
  then show ?case by (auto simp: goodPart_def split: if_splits)
next
  case (3 c cs)
  then show ?case by (auto simp: goodPart_def split: if_splits)
next
  case (4 c cs)
  then show ?case by (auto simp: goodPart_def split: if_splits)
qed

lemma parseParts_good: "\<forall>q \<in> set ps. goodPart True q \<Longrightarrow> \<exists>res. parseParts ps acc = Inr res"
  by (induction ps arbitrary: acc) (auto simp: goodPart_def Let_def)

lemma wellFormed_parses: "wellFormedTemplate t \<Longrightarrow> \<exists>cs. parsePath t = Inr cs"
proof -
  assume "wellFormedTemplate t"
  from wellFormed_split [OF this [unfolded wellFormedTemplate_def]]
  obtain p ps where sp: "js_split CHR ''{'' t = p # ps" and g: "\<forall>q \<in> set ps. goodPart True q"
    by auto
  from parseParts_good [OF g, of "[Const p]"]
  obtain res where "parseParts ps [Const p] = Inr res" ..
  then show ?thesis by (simp add: parsePath_def sp)
qed

text \<open>
  Claim C5. \<open>parsePath\<close> accepts every well-formed template, and whenever it returns a
  component sequence for a template \<open>t\<close>, joining the components (constants verbatim,
  parameters as \<open>{name}\<close>) gives \<open>t\<close> back, although empty constants have been dropped.
\<close>

theorem parsePath_roundtrip:
  "(wellFormedTemplate t \<longrightarrow> (\<exists>cs. parsePath t = Inr cs)) \<and>
   (\<forall>cs. parsePath t = Inr cs \<longrightarrow> joinPath cs = t)"
  using wellFormed_parses [of t] parsePath_join [of t] by blast

theorem parsePath_roundtrip_witness:
  "wellFormedTemplate ''/pets/{id}{ext}/toys'' \<and>
   parsePath ''/pets/{id}{ext}/toys'' =
     Inr [Const ''/pets/'', Param ''id'', Param ''ext'', Const ''/toys''] \<and>
   joinPath [Const ''/pets/'', Param ''id'', Param ''ext'', Const ''/toys''] =
     ''/pets/{id}{ext}/toys''"
proof -
  have wf: "wellFormedTemplate ''/pets/{id}{ext}/toys''"
    by (simp add: wellFormedTemplate_def)
  have p: "parsePath ''/pets/{id}{ext}/toys'' =
     Inr [Const ''/pets/'', Param ''id'', Param ''ext'', Const ''/toys'']"
    by (simp add: parsePath_def keepComponent_def)
  from parsePath_roundtrip [of "''/pets/{id}{ext}/toys''"] wf p show ?thesis
    by simp
qed

section \<open>Evaluating the modeler on examples\<close>

lemmas example_defs =
  plainParameter_def plainHeader_def plainResponse_def plainOperation_def plainPathItem_def
  plainDocument_def

lemmas modeler_defs =
  run_def runPathItem_def runOperation_def parseServers_def parseServer_def parseParameters_def
  parseParameter_def checkParameters_def getParameterKey_def jsonStringArray_def jsonString_def
  jsonEscape_def mergeParameters_def mergeParameter_def namesMismatch_def pathParamNames_def
  pathParamsExpected_def normalizeKey_def statusKeyMatches_def sortResponses_def wildcards_def
  orElse_def orFalse_def parsePath_def keepComponent_def httpMethods_def markHeader_def
  headerAsParameter_def dropLocation_def Let_def

section \<open>Uniqueness of parameter keys\<close>

text \<open>
  Claim C1. The path-level list is checked, and the check on it is repeated for every
  operation under the message for operation parameters (line 173); the operation's own
  list is never checked. On \<open>duplicateDocument\<close> the operation declares the key
  \<open>("limit", query)\<close> twice, \<open>checkParameters\<close> rejects its list, and \<open>run\<close> returns a
  model in which the second declaration has replaced the first.
\<close>

theorem run_accepts_duplicate_operation_parameters:
  "parseParameters (oo_parameters duplicateOperation) =
     Inr (Some [\<lparr> h_name = ''limit'', h_description = None, h_required = False,
                   h_deprecated = False, h_locationQueryAllowEmptyValue = None,
                   p_location = InQuery \<rparr>,
                \<lparr> h_name = ''limit'', h_description = None, h_required = True,
                   h_deprecated = False, h_locationQueryAllowEmptyValue = None,
                   p_location = InQuery \<rparr>]) \<and>
   \<not> checkParameters
       [\<lparr> h_name = ''limit'', h_description = None, h_required = False,
          h_deprecated = False, h_locationQueryAllowEmptyValue = None,
          p_location = InQuery \<rparr>,
        \<lparr> h_name = ''limit'', h_description = None, h_required = True,
          h_deprecated = False, h_locationQueryAllowEmptyValue = None,
          p_location = InQuery \<rparr>] \<and>
   fst (run duplicateDocument) =
     Inr \<lparr> operations =
           [\<lparr> m_urlSuffix = [Const ''/pets''], m_tags = [], m_summary = None,
              m_description = None, m_externalDocs = None, m_operationId = None,
              m_responses = [\<lparr> r_key = ''200'', r_description = None, r_headers = [] \<rparr>,
                             \<lparr> r_key = ''XXX'', r_description = None, r_headers = [] \<rparr>],
              m_parameters =
                [\<lparr> h_name = ''limit'', h_description = None, h_required = True,
                   h_deprecated = False, h_locationQueryAllowEmptyValue = None,
                   p_location = InQuery \<rparr>],
              m_deprecated = False,
              m_servers = [\<lparr> s_urlPrefix = [Const ''/''], s_description = None,
                             s_variables = [] \<rparr>] \<rparr>],
         tags = [] \<rparr>"
  by (simp add: duplicateDocument_def duplicateOperation_def example_defs modeler_defs)

section \<open>Parameter formats\<close>

text \<open>
  Claim C3. A query parameter that declares \<open>explode: false\<close> and no style has the
  effective style \<open>form\<close>; \<open>parseParameterBase\<close> (and \<open>normalizeFormat\<close> alike) gives it
  \<open>explode = true\<close>, since \<open>false || (style === "form")\<close> is \<open>true\<close>.
\<close>

theorem explicit_explode_false_is_overridden:
  "parseParameterBase unexplodedParameter =
     Inr \<lparr> pb_name = ''ids'', pb_description = None, pb_required = False,
           pb_deprecated = False, pb_format = \<lparr> f_style = Form, f_explode = True \<rparr> \<rparr> \<and>
   normalizeFormat InQuery None (Some False) = \<lparr> f_style = Form, f_explode = True \<rparr>"
  by (simp add: parseParameterBase_def normalizeFormat_def unexplodedParameter_def
        plainParameter_def orFalse_def)

section \<open>How \<open>run\<close> reaches the operations\<close>

lemma parseServers_simps [simp]:
  "parseServers None = Inr None" "parseServers (Some []) = Inr (Some [])"
  by (simp_all add: parseServers_def)

lemma getOperation_setOperation:
  "getOperation h (setOperation h' v po) = (if h = h' then Some v else getOperation h po)"
  by (cases h; cases h') simp_all

lemma in_httpMethods: "h \<in> set httpMethods"
  by (cases h) (simp_all add: httpMethods_def)

lemma parsePath_root: "parsePath ''/'' = Inr [Const ''/'']"
  by (simp add: parsePath_def keepComponent_def)

lemma namesMismatch_iff: "namesMismatch a b \<longleftrightarrow> a \<noteq> b"
  unfolding namesMismatch_def list_all_iff
  by (auto simp: list_eq_iff_nth_eq [of a b])

lemma runOperation_Inr:
  assumes "fst (runOperation path ps pd sv pps op) = Inr m"
  obtains os ops res rs' where
    "parseServers (oo_servers op) = Inr os"
    "parseParameters (oo_parameters op) = Inr ops"
    "checkParameters pps"
    "\<not> namesMismatch (pathParamNames (mergeParameters pps (case ops of Some l \<Rightarrow> l | None \<Rightarrow> [])))
        (pathParamsExpected path)"
    "parseResponses (oo_responses op) = (Inr res, rs')"
    "m_responses m = sortResponses res"
    "m_parameters m = mergeParameters pps (case ops of Some l \<Rightarrow> l | None \<Rightarrow> [])"
    "m_servers m = (case os of Some l \<Rightarrow> l | None \<Rightarrow> sv)"
    "m_urlSuffix m = path"
proof -
  obtain os where os: "parseServers (oo_servers op) = Inr os"
    using assms by (cases "parseServers (oo_servers op)") (simp_all add: runOperation_def)
  obtain ops where ops: "parseParameters (oo_parameters op) = Inr ops"
    using assms os
    by (cases "parseParameters (oo_parameters op)") (simp_all add: runOperation_def Let_def)
  have chk: "checkParameters pps"
    using assms os ops by (cases "checkParameters pps") (simp_all add: runOperation_def Let_def)
  let ?merged = "mergeParameters pps (case ops of Some l \<Rightarrow> l | None \<Rightarrow> [])"
  have mm: "\<not> namesMismatch (pathParamNames ?merged) (pathParamsExpected path)"
    using assms os ops chk
    by (cases "namesMismatch (pathParamNames ?merged) (pathParamsExpected path)")
       (simp_all add: runOperation_def Let_def)
  obtain r rs' where pr: "parseResponses (oo_responses op) = (r, rs')"
    by (cases "parseResponses (oo_responses op)")
  obtain res where r: "r = Inr res"
    using assms os ops chk mm pr by (cases r) (simp_all add: runOperation_def Let_def)
  have "Inr m = fst (runOperation path ps pd sv pps op)"
    using assms by simp
  also have "\<dots> = Inr \<lparr> m_urlSuffix = path,
                      m_tags = (case oo_tags op of Some t \<Rightarrow> t | None \<Rightarrow> []),
                      m_summary = orElse (oo_summary op) ps,
                      m_description = orElse (oo_description op) pd,
                      m_externalDocs = oo_externalDocs op,
                      m_operationId = oo_operationId op,
                      m_responses = sortResponses res,
                      m_parameters = ?merged,
                      m_deprecated = orFalse (oo_deprecated op),
                      m_servers = (case os of Some l \<Rightarrow> l | None \<Rightarrow> sv) \<rparr>"
    using os ops chk mm pr r by (simp add: runOperation_def Let_def)
  finally have "m_responses m = sortResponses res" "m_parameters m = ?merged"
    "m_servers m = (case os of Some l \<Rightarrow> l | None \<Rightarrow> sv)" "m_urlSuffix m = path"
    by simp_all
  with os ops chk mm pr r that show thesis by blast
qed

lemma distinct_httpMethods: "distinct httpMethods"
  by (simp add: httpMethods_def)

text \<open>
  When the loop over the methods ends without an error, every operation of the path item has
  been assembled, from the object the document holds, and its method is in the result.
\<close>

lemma runMethods_reaches:
  "fst (runMethods path ps pd sv pps hs po) = Inr ms \<Longrightarrow> distinct hs \<Longrightarrow> h \<in> set hs \<Longrightarrow>
   getOperation h po = Some op \<Longrightarrow>
   \<exists>m. fst (runOperation path ps pd sv pps op) = Inr m \<and> m \<in> set ms"
proof (induction hs arbitrary: po ms)
  case Nil
  then show ?case by simp
next
  case (Cons h0 hs)
  show ?case
  proof (cases "getOperation h0 po")
    case None
    with Cons.prems have "h \<noteq> h0" by auto
    with Cons None show ?thesis by auto
  next
    case (Some op0)
    obtain r op0' where ro: "runOperation path ps pd sv pps op0 = (r, op0')"
      by (cases "runOperation path ps pd sv pps op0")
    with Cons.prems(1) Some obtain m0 where r: "r = Inr m0"
      by (cases r) auto
    obtain r2 po2 where rm: "runMethods path ps pd sv pps hs (setOperation h0 op0' po) = (r2, po2)"
      by (cases "runMethods path ps pd sv pps hs (setOperation h0 op0' po)")
    with Cons.prems(1) Some ro r obtain ms' where r2: "r2 = Inr ms'" and ms: "ms = m0 # ms'"
      by (cases r2) auto
    show ?thesis
    proof (cases "h = h0")
      case True
      with Cons.prems(4) Some have "op = op0" by simp
      with ro r ms show ?thesis by auto
    next
      case False
      with Cons.prems have hin: "h \<in> set hs" and d: "distinct hs" by auto
      from False Cons.prems(4) have g: "getOperation h (setOperation h0 op0' po) = Some op"
        by (simp add: getOperation_setOperation)
      have "\<exists>m. fst (runOperation path ps pd sv pps op) = Inr m \<and> m \<in> set ms'"
        by (rule Cons.IH [OF _ d hin g]) (simp add: rm r2)
      with ms show ?thesis by auto
    qed
  qed
qed

lemma runMethods_origin:
  "fst (runMethods path ps pd sv pps hs po) = Inr ms \<Longrightarrow> m \<in> set ms \<Longrightarrow>
   \<exists>op. fst (runOperation path ps pd sv pps op) = Inr m"
proof (induction hs arbitrary: po ms)
  case Nil
  then show ?case by simp
next
  case (Cons h0 hs)
  show ?case
  proof (cases "getOperation h0 po")
    case None
    with Cons show ?thesis by auto
  next
    case (Some op0)
    obtain r op0' where ro: "runOperation path ps pd sv pps op0 = (r, op0')"
      by (cases "runOperation path ps pd sv pps op0")
    with Cons.prems(1) Some obtain m0 where r: "r = Inr m0"
      by (cases r) auto
    obtain r2 po2 where rm: "runMethods path ps pd sv pps hs (setOperation h0 op0' po) = (r2, po2)"
      by (cases "runMethods path ps pd sv pps hs (setOperation h0 op0' po)")
    with Cons.prems(1) Some ro r obtain ms' where r2: "r2 = Inr ms'" and ms: "ms = m0 # ms'"
      by (cases r2) auto
    show ?thesis
    proof (cases "m = m0")
      case True
      with ro r have "fst (runOperation path ps pd sv pps op0) = Inr m" by simp
      then show ?thesis ..
    next
      case False
      with Cons.prems(2) ms have mem: "m \<in> set ms'" by simp
      have "fst (runMethods path ps pd sv pps hs (setOperation h0 op0' po)) = Inr ms'"
        by (simp add: rm r2)
      from Cons.IH [OF this mem] show ?thesis .
    qed
  qed
qed

lemma runPathItem_Inr:
  assumes "fst (runPathItem servers rawPath po) = Inr ms"
  obtains path psv pps where
    "parsePath rawPath = Inr path"
    "pi_servers po = Some [] \<longrightarrow> psv = []"
    "fst (runMethods path (pi_summary po) (pi_description po) psv pps httpMethods po) = Inr ms"
proof -
  obtain path where p: "parsePath rawPath = Inr path"
    using assms by (cases "parsePath rawPath") (simp_all add: runPathItem_def)
  obtain s where s: "parseServers (pi_servers po) = Inr s"
    using assms p by (cases "parseServers (pi_servers po)") (simp_all add: runPathItem_def)
  obtain pp where pp: "parseParameters (pi_parameters po) = Inr pp"
    using assms p s
    by (cases "parseParameters (pi_parameters po)") (simp_all add: runPathItem_def Let_def)
  let ?psv = "case s of Some l \<Rightarrow> l | None \<Rightarrow> servers"
  let ?pps = "case pp of Some l \<Rightarrow> l | None \<Rightarrow> []"
  have "fst (runMethods path (pi_summary po) (pi_description po) ?psv ?pps httpMethods po) = Inr ms"
    using assms p s pp
    by (cases "checkParameters ?pps") (simp_all add: runPathItem_def Let_def)
  moreover have "pi_servers po = Some [] \<longrightarrow> ?psv = []"
    using s by auto
  ultimately show thesis using p that by blast
qed

lemma runPaths_reaches:
  "fst (runPaths servers ps) = Inr ms \<Longrightarrow> (rawPath, po) \<in> set ps \<Longrightarrow>
   \<exists>ms0. fst (runPathItem servers rawPath po) = Inr ms0 \<and> set ms0 \<subseteq> set ms"
proof (induction ps arbitrary: ms)
  case Nil
  then show ?case by simp
next
  case (Cons a ps)
  obtain k p where a: "a = (k, p)" by (cases a)
  obtain r p' where rp: "runPathItem servers k p = (r, p')" by (cases "runPathItem servers k p")
  with Cons.prems(1) obtain ms1 where r: "r = Inr ms1"
    unfolding a by (cases r) auto
  obtain r2 ps' where rr: "runPaths servers ps = (r2, ps')" by (cases "runPaths servers ps")
  with Cons.prems(1) rp r obtain ms2 where r2: "r2 = Inr ms2" and ms: "ms = ms1 @ ms2"
    unfolding a by (cases r2) auto
  from Cons.prems(2) a consider "(rawPath, po) = (k, p)" | "(rawPath, po) \<in> set ps" by auto
  then show ?case
  proof cases
    case 1
    with rp r ms show ?thesis by auto
  next
    case 2
    from Cons.IH [OF _ 2, of ms2] rr r2 ms show ?thesis by auto
  qed
qed

lemma runPaths_origin:
  "fst (runPaths servers ps) = Inr ms \<Longrightarrow> m \<in> set ms \<Longrightarrow>
   \<exists>rawPath po ms0. fst (runPathItem servers rawPath po) = Inr ms0 \<and> m \<in> set ms0"
proof (induction ps arbitrary: ms)
  case Nil
  then show ?case by simp
next
  case (Cons a ps)
  obtain k p where a: "a = (k, p)" by (cases a)
  obtain r p' where rp: "runPathItem servers k p = (r, p')" by (cases "runPathItem servers k p")
  with Cons.prems(1) obtain ms1 where r: "r = Inr ms1"
    unfolding a by (cases r) auto
  obtain r2 ps' where rr: "runPaths servers ps = (r2, ps')" by (cases "runPaths servers ps")
  with Cons.prems(1) rp r obtain ms2 where r2: "r2 = Inr ms2" and ms: "ms = ms1 @ ms2"
    unfolding a by (cases r2) auto
  from Cons.prems(2) ms consider "m \<in> set ms1" | "m \<in> set ms2" by auto
  then show ?case
  proof cases
    case 1
    with rp r show ?thesis by (metis fst_conv)
  next
    case 2
    have "fst (runPaths servers ps) = Inr ms2"
      by (simp add: rr r2)
    from Cons.IH [OF this 2] show ?thesis .
  qed
qed

lemma run_Inr:
  assumes "fst (run doc) = Inr model"
  shows "\<exists>servers. fst (runPaths servers (oa_paths doc)) = Inr (operations model)"
proof -
  have v: "oa_openapi doc = ''3.0.0''"
    using assms by (cases "oa_openapi doc = ''3.0.0''") (simp_all add: run_def)
  obtain sv where sv: "parseServers (oa_servers doc) = Inr sv"
    using assms v by (cases "parseServers (oa_servers doc)") (simp_all add: run_def)
  show ?thesis
  proof (cases "(case sv of Some l \<Rightarrow> l | None \<Rightarrow> []) = []")
    case True
    with assms v sv show ?thesis
      by (auto simp: run_def Let_def parsePath_root case_prod_beta split: sum.splits)
  next
    case False
    with assms v sv show ?thesis
      by (auto simp: run_def Let_def case_prod_beta split: sum.splits)
  qed
qed

text \<open>
  When \<open>run\<close> returns a model, every operation the document declares has been assembled
  under the parsed template of its path, and its method is in the model; and every method of
  the model is the result of assembling some operation.
\<close>

lemma run_reaches:
  assumes "fst (run doc) = Inr model" and "(rawPath, po) \<in> set (oa_paths doc)"
    and "getOperation h po = Some op"
  shows "\<exists>path psv pps m. parsePath rawPath = Inr path \<and>
           (pi_servers po = Some [] \<longrightarrow> psv = []) \<and>
           fst (runOperation path (pi_summary po) (pi_description po) psv pps op) = Inr m \<and>
           m \<in> set (operations model)"
proof -
  from run_Inr [OF assms(1)] obtain servers where
    "fst (runPaths servers (oa_paths doc)) = Inr (operations model)" ..
  from runPaths_reaches [OF this assms(2)] obtain ms0 where
    a: "fst (runPathItem servers rawPath po) = Inr ms0" and b: "set ms0 \<subseteq> set (operations model)"
    by blast
  from a obtain path psv pps where
    p: "parsePath rawPath = Inr path" and e: "pi_servers po = Some [] \<longrightarrow> psv = []" and
    rm: "fst (runMethods path (pi_summary po) (pi_description po) psv pps httpMethods po) = Inr ms0"
    by (rule runPathItem_Inr)
  from runMethods_reaches [OF rm distinct_httpMethods in_httpMethods assms(3)] b p e
  show ?thesis by blast
qed

lemma run_origin:
  assumes "fst (run doc) = Inr model" and "m \<in> set (operations model)"
  shows "\<exists>path ps pd sv pps op. fst (runOperation path ps pd sv pps op) = Inr m"
proof -
  from run_Inr [OF assms(1)] obtain servers where
    "fst (runPaths servers (oa_paths doc)) = Inr (operations model)" ..
  from runPaths_origin [OF this assms(2)] obtain rawPath po ms0 where
    a: "fst (runPathItem servers rawPath po) = Inr ms0" and b: "m \<in> set ms0"
    by blast
  from a obtain path psv pps where
    "fst (runMethods path (pi_summary po) (pi_description po) psv pps httpMethods po) = Inr ms0"
    by (rule runPathItem_Inr)
  from runMethods_origin [OF this b] show ?thesis by blast
qed

section \<open>Servers of a method\<close>

lemma runOperation_servers:
  assumes "fst (runOperation path ps pd pathServers pps op) = Inr m"
  shows "oo_servers op = None \<Longrightarrow> m_servers m = pathServers"
    and "oo_servers op = Some [] \<Longrightarrow> m_servers m = []"
proof -
  from assms obtain os where os: "parseServers (oo_servers op) = Inr os"
    and m: "m_servers m = (case os of Some l \<Rightarrow> l | None \<Rightarrow> pathServers)"
    by (rule runOperation_Inr)
  show "oo_servers op = None \<Longrightarrow> m_servers m = pathServers"
    using os m by auto
  show "oo_servers op = Some [] \<Longrightarrow> m_servers m = []"
    using os m by auto
qed

text \<open>
  Claim C8. An operation that declares \<open>servers: []\<close> is assembled into a method without
  servers, whatever the path item and the document provide, and an operation that declares
  no servers takes the list of its path item. So when \<open>run\<close> returns a model for a document
  in which an operation declares \<open>servers: []\<close>, or declares none under a path item that
  declares \<open>servers: []\<close>, the method of that operation in the model has no server, although
  the document-level list is never empty.
\<close>

theorem explicit_empty_servers_stay_empty:
  "(\<forall>m. oo_servers op = Some [] \<and>
        fst (runOperation path ps pd pathServers pps op) = Inr m \<longrightarrow> m_servers m = []) \<and>
   (\<forall>m. oo_servers op = None \<and>
        fst (runOperation path ps pd pathServers pps op) = Inr m \<longrightarrow> m_servers m = pathServers) \<and>
   (\<forall>model rawPath po h.
      fst (run doc) = Inr model \<and> (rawPath, po) \<in> set (oa_paths doc) \<and>
      getOperation h po = Some op \<and>
      (oo_servers op = Some [] \<or> oo_servers op = None \<and> pi_servers po = Some []) \<longrightarrow>
      (\<exists>m \<in> set (operations model). m_servers m = [] \<and>
         (\<exists>path' ps' pd' sv' pps'. fst (runOperation path' ps' pd' sv' pps' op) = Inr m)))"
proof -
  have a: "\<forall>m. oo_servers op = Some [] \<and>
        fst (runOperation path ps pd pathServers pps op) = Inr m \<longrightarrow> m_servers m = []"
    using runOperation_servers(2) by blast
  have b: "\<forall>m. oo_servers op = None \<and>
        fst (runOperation path ps pd pathServers pps op) = Inr m \<longrightarrow> m_servers m = pathServers"
    using runOperation_servers(1) by blast
  have c: "\<exists>m \<in> set (operations model). m_servers m = [] \<and>
         (\<exists>path' ps' pd' sv' pps'. fst (runOperation path' ps' pd' sv' pps' op) = Inr m)"
    if r: "fst (run doc) = Inr model" and p: "(rawPath, po) \<in> set (oa_paths doc)"
      and g: "getOperation h po = Some op"
      and s: "oo_servers op = Some [] \<or> oo_servers op = None \<and> pi_servers po = Some []"
    for model rawPath po h
  proof -
    from run_reaches [OF r p g] obtain path' psv pps' m where
      e: "pi_servers po = Some [] \<longrightarrow> psv = []" and
      ro: "fst (runOperation path' (pi_summary po) (pi_description po) psv pps' op) = Inr m" and
      m: "m \<in> set (operations model)"
      by blast
    from s runOperation_servers [OF ro] e have "m_servers m = []" by auto
    with ro m show ?thesis by blast
  qed
  from a b c show ?thesis by blast
qed

theorem explicit_empty_servers_stay_empty_witness:
  "oa_servers noServersDocument = Some [apiServer] \<and>
   map_sum id (\<lambda>m. map m_servers (operations m)) (fst (run noServersDocument)) = Inr [[], []] \<and>
   (''/toys'', plainPathItem\<lparr> pi_post := Some noServersOperation \<rparr>)
     \<in> set (oa_paths noServersDocument) \<and>
   oo_servers noServersOperation = Some [] \<and>
   (''/pets'', noServersPathItem) \<in> set (oa_paths noServersDocument) \<and>
   getOperation Get noServersPathItem = Some (plainOperation [(''200'', plainResponse)]) \<and>
   oo_servers (plainOperation [(''200'', plainResponse)]) = None \<and>
   pi_servers noServersPathItem = Some [] \<and>
   map_sum id m_servers
     (fst (runOperation [Const ''/toys''] None None
             [\<lparr> s_urlPrefix = [Const ''https://api.example.com/v1''], s_description = None,
                s_variables = [] \<rparr>] [] noServersOperation)) = Inr []"
proof -
  have a: "oa_servers noServersDocument = Some [apiServer]"
    "(''/toys'', plainPathItem\<lparr> pi_post := Some noServersOperation \<rparr>)
       \<in> set (oa_paths noServersDocument)"
    "(''/pets'', noServersPathItem) \<in> set (oa_paths noServersDocument)"
    by (simp_all add: noServersDocument_def example_defs)
  have b: "oo_servers noServersOperation = Some []"
    "getOperation Get noServersPathItem = Some (plainOperation [(''200'', plainResponse)])"
    "oo_servers (plainOperation [(''200'', plainResponse)]) = None"
    "pi_servers noServersPathItem = Some []"
    "getOperation Post (plainPathItem\<lparr> pi_post := Some noServersOperation \<rparr>) =
       Some noServersOperation"
    by (simp_all add: noServersOperation_def noServersPathItem_def example_defs)
  have f: "map_sum id (\<lambda>m. map m_servers (operations m)) (fst (run noServersDocument)) =
             Inr [[], []]"
    by (simp add: noServersDocument_def noServersPathItem_def noServersOperation_def
          apiServer_def example_defs modeler_defs)
  then obtain model where model: "fst (run noServersDocument) = Inr model"
    by (cases "fst (run noServersDocument)") auto
  have d: "\<exists>m. fst (runOperation [Const ''/toys''] None None
             [\<lparr> s_urlPrefix = [Const ''https://api.example.com/v1''], s_description = None,
                s_variables = [] \<rparr>] [] noServersOperation) = Inr m"
    by (simp add: noServersOperation_def example_defs modeler_defs)
  then obtain m where m: "fst (runOperation [Const ''/toys''] None None
             [\<lparr> s_urlPrefix = [Const ''https://api.example.com/v1''], s_description = None,
                s_variables = [] \<rparr>] [] noServersOperation) = Inr m" ..
  note t1 = explicit_empty_servers_stay_empty
              [of noServersOperation "[Const ''/toys'']" None None
                  "[\<lparr> s_urlPrefix = [Const ''https://api.example.com/v1''],
                      s_description = None, s_variables = [] \<rparr>]" "[]" noServersDocument]
  note t2 = explicit_empty_servers_stay_empty
              [of "plainOperation [(''200'', plainResponse)]" "[]" None None "[]" "[]"
                  noServersDocument]
  from t1 b(1) m have "m_servers m = []" by blast
  moreover from t1 model a(2) b(1,5)
  have "\<exists>m \<in> set (operations model). m_servers m = []" by blast
  moreover from t2 model a(3) b(2,3,4)
  have "\<exists>m \<in> set (operations model). m_servers m = []" by blast
  ultimately show ?thesis using a b f m by simp
qed

section \<open>Responses\<close>

lemma parseResponses_keys:
  "parseResponses rs = (Inr res, rs') \<Longrightarrow>
   map r_key res = map (\<lambda>x. normalizeKey (fst x)) rs \<and>
   list_all (\<lambda>r. statusKeyMatches (r_key r)) res"
proof (induction rs arbitrary: res rs')
  case Nil
  then show ?case by simp
next
  case (Cons a rs)
  obtain k ro where a: "a = (k, ro)" by (cases a)
  from Cons.prems show ?case
    unfolding a
    by (auto simp: Let_def split: if_splits sum.splits prod.splits option.splits dest!: Cons.IH)
qed

lemma runOperation_response_keys:
  assumes "fst (runOperation path ps pd sv pps op) = Inr m"
  shows "sorted (map (\<lambda>r. wildcards (r_key r)) (m_responses m))"
    and "mset (map r_key (m_responses m)) =
         mset (map (\<lambda>x. normalizeKey (fst x)) (oo_responses op))"
    and "\<forall>k \<in> set (map fst (oo_responses op)). statusKeyMatches (normalizeKey k)"
    and "filter (\<lambda>k. wildcards k = n) (map r_key (m_responses m)) =
         filter (\<lambda>k. wildcards k = n) (map (\<lambda>x. normalizeKey (fst x)) (oo_responses op))"
proof -
  from assms obtain res rs' where pr: "parseResponses (oo_responses op) = (Inr res, rs')"
    and m: "m_responses m = sortResponses res"
    by (rule runOperation_Inr)
  from parseResponses_keys [OF pr]
  have k: "map r_key res = map (\<lambda>x. normalizeKey (fst x)) (oo_responses op)"
    and v: "list_all (\<lambda>r. statusKeyMatches (r_key r)) res" by auto
  show "sorted (map (\<lambda>r. wildcards (r_key r)) (m_responses m))"
    by (simp add: m sortResponses_def)
  have "mset (map r_key (m_responses m)) = mset (map r_key res)"
    by (simp add: m sortResponses_def)
  then show "mset (map r_key (m_responses m)) =
             mset (map (\<lambda>x. normalizeKey (fst x)) (oo_responses op))"
    by (simp add: k)
  have "list_all statusKeyMatches (map r_key res)"
    using v by (simp add: list_all_iff)
  then show "\<forall>k \<in> set (map fst (oo_responses op)). statusKeyMatches (normalizeKey k)"
    unfolding k by (simp add: list_all_iff)
  have "filter (\<lambda>k. wildcards k = n) (map r_key (m_responses m)) =
        map r_key (filter (\<lambda>r. wildcards (r_key r) = n)
                     (sort_key (\<lambda>r. wildcards (r_key r)) res))"
    by (simp add: m sortResponses_def filter_map comp_def)
  also have "\<dots> = map r_key (filter (\<lambda>r. wildcards (r_key r) = n) res)"
    by (simp only: sort_key_stable)
  also have "\<dots> = filter (\<lambda>k. wildcards k = n) (map r_key res)"
    by (simp add: filter_map comp_def)
  finally show "filter (\<lambda>k. wildcards k = n) (map r_key (m_responses m)) =
         filter (\<lambda>k. wildcards k = n) (map (\<lambda>x. normalizeKey (fst x)) (oo_responses op))"
    by (simp add: k)
qed

text \<open>
  Claim C4. The key \<open>default\<close> is rewritten to \<open>XXX\<close> and every other key is kept. When an
  operation is assembled, every declared key, so rewritten, matches the pattern of three
  digits or \<open>X\<close>, the keys of the method's responses are the rewritten declared keys, and
  they stand in ascending order of their number of \<open>X\<close>: \<open>200\<close> (none) before \<open>2XX\<close> (two)
  before \<open>XXX\<close> (three). So \<open>run\<close> throws on a document in which an operation declares a
  key that does not match, and in every model that \<open>run\<close> returns the responses of every
  method are in that order.
\<close>

theorem responses_normalized_and_sorted:
  "normalizeKey ''default'' = ''XXX'' \<and>
   (\<forall>k. k \<noteq> ''default'' \<longrightarrow> normalizeKey k = k) \<and>
   (\<forall>m. fst (runOperation path ps pd sv pps op) = Inr m \<longrightarrow>
      (\<forall>k \<in> set (map fst (oo_responses op)). statusKeyMatches (normalizeKey k)) \<and>
      mset (map r_key (m_responses m)) =
        mset (map (\<lambda>x. normalizeKey (fst x)) (oo_responses op)) \<and>
      sorted (map (\<lambda>r. wildcards (r_key r)) (m_responses m))) \<and>
   (\<forall>rawPath po h.
      (rawPath, po) \<in> set (oa_paths doc) \<and> getOperation h po = Some op \<and>
      (\<exists>k \<in> set (map fst (oo_responses op)). \<not> statusKeyMatches (normalizeKey k)) \<longrightarrow>
      (\<exists>e. fst (run doc) = Inl e)) \<and>
   (\<forall>model. fst (run doc) = Inr model \<longrightarrow>
      (\<forall>m \<in> set (operations model). sorted (map (\<lambda>r. wildcards (r_key r)) (m_responses m)))) \<and>
   wildcards ''200'' = 0 \<and> wildcards ''2XX'' = 2 \<and> wildcards ''XXX'' = 3"
proof -
  have a: "\<forall>m. fst (runOperation path ps pd sv pps op) = Inr m \<longrightarrow>
      (\<forall>k \<in> set (map fst (oo_responses op)). statusKeyMatches (normalizeKey k)) \<and>
      mset (map r_key (m_responses m)) =
        mset (map (\<lambda>x. normalizeKey (fst x)) (oo_responses op)) \<and>
      sorted (map (\<lambda>r. wildcards (r_key r)) (m_responses m))"
    using runOperation_response_keys(1,2,3) [of path ps pd sv pps op] by blast
  have b: "\<exists>e. fst (run doc) = Inl e"
    if p: "(rawPath, po) \<in> set (oa_paths doc)" and g: "getOperation h po = Some op"
      and bad: "\<exists>k \<in> set (map fst (oo_responses op)). \<not> statusKeyMatches (normalizeKey k)"
    for rawPath po h
  proof (cases "fst (run doc)")
    case (Inl e)
    then show ?thesis by blast
  next
    case (Inr model)
    from run_reaches [OF Inr p g] obtain path' ps' pd' sv' pps' m where
      "fst (runOperation path' ps' pd' sv' pps' op) = Inr m" by blast
    from runOperation_response_keys(3) [OF this] bad show ?thesis by blast
  qed
  have c: "sorted (map (\<lambda>r. wildcards (r_key r)) (m_responses m))"
    if r: "fst (run doc) = Inr model" and m: "m \<in> set (operations model)" for model m
  proof -
    from run_origin [OF r m] obtain path' ps' pd' sv' pps' op' where
      "fst (runOperation path' ps' pd' sv' pps' op') = Inr m" by blast
    then show ?thesis by (rule runOperation_response_keys(1))
  qed
  have d: "normalizeKey ''default'' = ''XXX''" "\<forall>k. k \<noteq> ''default'' \<longrightarrow> normalizeKey k = k"
    "wildcards ''200'' = 0" "wildcards ''2XX'' = 2" "wildcards ''XXX'' = 3"
    by (simp_all add: normalizeKey_def wildcards_def)
  from a b c d show ?thesis by blast
qed

theorem responses_normalized_and_sorted_witness:
  "map fst (oo_responses statusOperation) = [''200'', ''404'', ''default'', ''5XX'', ''4XX''] \<and>
   map_sum id (\<lambda>m. map r_key (m_responses m))
     (fst (runOperation [Const ''/pets''] None None [] [] statusOperation)) =
     Inr [''200'', ''404'', ''5XX'', ''4XX'', ''XXX''] \<and>
   list_all (\<lambda>k. statusKeyMatches (normalizeKey k)) (map fst (oo_responses statusOperation)) \<and>
   sorted (map wildcards [''200'', ''404'', ''5XX'', ''4XX'', ''XXX'']) \<and>
   map_sum id (\<lambda>m. map (\<lambda>x. map r_key (m_responses x)) (operations m))
     (fst (run statusDocument)) = Inr [[''200'', ''404'', ''5XX'', ''4XX'', ''XXX'']] \<and>
   (''/pets'', plainPathItem\<lparr> pi_get := Some (plainOperation [(''20'', plainResponse)]) \<rparr>)
     \<in> set (oa_paths badStatusDocument) \<and>
   \<not> statusKeyMatches (normalizeKey ''20'') \<and>
   fst (run badStatusDocument) = Inl (InvalidStatusCodePattern ''20'')"
proof -
  have ks: "map fst (oo_responses statusOperation) = [''200'', ''404'', ''default'', ''5XX'', ''4XX'']"
    by (simp add: statusOperation_def example_defs)
  have ev: "map_sum id (\<lambda>m. map r_key (m_responses m))
     (fst (runOperation [Const ''/pets''] None None [] [] statusOperation)) =
     Inr [''200'', ''404'', ''5XX'', ''4XX'', ''XXX'']"
    by (simp add: statusOperation_def example_defs modeler_defs)
  then obtain m where
    m: "fst (runOperation [Const ''/pets''] None None [] [] statusOperation) = Inr m"
    and keys: "map r_key (m_responses m) = [''200'', ''404'', ''5XX'', ''4XX'', ''XXX'']"
    by (cases "fst (runOperation [Const ''/pets''] None None [] [] statusOperation)") auto
  have rn: "map_sum id (\<lambda>m. map (\<lambda>x. map r_key (m_responses x)) (operations m))
     (fst (run statusDocument)) = Inr [[''200'', ''404'', ''5XX'', ''4XX'', ''XXX'']]"
    by (simp add: statusDocument_def statusOperation_def example_defs modeler_defs)
  have bd: "(''/pets'', plainPathItem\<lparr> pi_get := Some (plainOperation [(''20'', plainResponse)]) \<rparr>)
     \<in> set (oa_paths badStatusDocument)"
    "getOperation Get (plainPathItem\<lparr> pi_get := Some (plainOperation [(''20'', plainResponse)]) \<rparr>)
       = Some (plainOperation [(''20'', plainResponse)])"
    "\<exists>k \<in> set (map fst (oo_responses (plainOperation [(''20'', plainResponse)]))).
        \<not> statusKeyMatches (normalizeKey k)"
    "\<not> statusKeyMatches (normalizeKey ''20'')"
    by (simp_all add: badStatusDocument_def example_defs normalizeKey_def statusKeyMatches_def)
  have be: "fst (run badStatusDocument) = Inl (InvalidStatusCodePattern ''20'')"
    by (simp add: badStatusDocument_def example_defs modeler_defs)
  note t = responses_normalized_and_sorted
             [of "[Const ''/pets'']" None None "[]" "[]" statusOperation statusDocument]
  note t' = responses_normalized_and_sorted
             [of "[]" None None "[]" "[]" "plainOperation [(''20'', plainResponse)]"
                 badStatusDocument]
  from t m
  have "(\<forall>k \<in> set (map fst (oo_responses statusOperation)). statusKeyMatches (normalizeKey k)) \<and>
        sorted (map (\<lambda>r. wildcards (r_key r)) (m_responses m))"
    by blast
  then have p: "list_all (\<lambda>k. statusKeyMatches (normalizeKey k)) (map fst (oo_responses statusOperation))"
    and q: "sorted (map wildcards (map r_key (m_responses m)))"
    by (simp_all add: list_all_iff comp_def)
  from t' bd(1,2,3) have "\<exists>e. fst (run badStatusDocument) = Inl e" by blast
  with ks ev p q [unfolded keys] rn bd(1,4) be show ?thesis by blast
qed

lemma map_insort_key: "map f (insort_key (\<lambda>x. g (f x)) a xs) = insort_key g (f a) (map f xs)"
  by (induction xs) auto

lemma map_sort_key: "map f (sort_key (\<lambda>x. g (f x)) xs) = sort_key g (map f xs)"
  by (induction xs) (auto simp: map_insort_key)

lemma filter_swap: "filter P (filter Q xs) = filter Q (filter P xs)"
  by (induction xs) auto

lemma isArrayIndex_wildcards: "isArrayIndex k \<Longrightarrow> wildcards k = 0"
  by (auto simp: isArrayIndex_def wildcards_def list_all_iff filter_empty_conv)

lemma isArrayIndex_normalizeKey: "isArrayIndex (normalizeKey k) = isArrayIndex k"
  by (simp add: normalizeKey_def isArrayIndex_def)

lemma normalizeKey_index: "isArrayIndex k \<Longrightarrow> normalizeKey k = k"
  by (auto simp: normalizeKey_def isArrayIndex_def)

lemma ownPropertyOrder_others:
  "filter (\<lambda>k. \<not> isArrayIndex k) (map fst (ownPropertyOrder decl)) =
   filter (\<lambda>k. \<not> isArrayIndex k) (map fst decl)"
  by (simp add: ownPropertyOrder_def filter_map comp_def)

lemma ownPropertyOrder_indices:
  "filter isArrayIndex (map fst (ownPropertyOrder decl)) =
   sort_key decimalValue (filter isArrayIndex (map fst decl))"
proof -
  have "filter isArrayIndex (map fst (ownPropertyOrder decl)) =
        map fst (sort_key (\<lambda>e. decimalValue (fst e)) (filter (\<lambda>e. isArrayIndex (fst e)) decl))"
    by (simp add: ownPropertyOrder_def filter_map comp_def)
  also have "\<dots> = sort_key decimalValue (map fst (filter (\<lambda>e. isArrayIndex (fst e)) decl))"
    by (rule map_sort_key)
  finally show ?thesis by (simp add: filter_map comp_def)
qed

text \<open>
  A list of keys that agrees, class by class of the number of \<open>X\<close>, with the normalized
  keys of an object declared as \<open>decl\<close>: the keys that are no array indices are in
  declaration order, and the array indices are in ascending numeric order.
\<close>

lemma enumerated_final:
  assumes f: "\<And>n. filter (\<lambda>k. wildcards k = n) final =
                 filter (\<lambda>k. wildcards k = n)
                   (map normalizeKey (map fst (ownPropertyOrder decl)))"
  shows "filter (\<lambda>k. wildcards k = n \<and> \<not> isArrayIndex k) final =
         filter (\<lambda>k. wildcards k = n \<and> \<not> isArrayIndex k) (map normalizeKey (map fst decl))"
    and "filter isArrayIndex final = sort_key decimalValue (filter isArrayIndex (map fst decl))"
proof -
  let ?en = "map fst (ownPropertyOrder decl)"
  let ?W = "\<lambda>k. wildcards k = n"
  let ?N = "\<lambda>k. \<not> isArrayIndex k"
  have B: "filter ?N (map normalizeKey xs) = map normalizeKey (filter ?N xs)" for xs
    by (simp add: filter_map comp_def isArrayIndex_normalizeKey)
  have B': "filter isArrayIndex (map normalizeKey xs) = filter isArrayIndex xs" for xs
    by (induction xs) (auto simp: isArrayIndex_normalizeKey normalizeKey_index)
  have Z: "filter isArrayIndex (filter (\<lambda>k. wildcards k = 0) xs) = filter isArrayIndex xs" for xs
    by (induction xs) (auto simp: isArrayIndex_wildcards)
  have "filter ?N (filter ?W final) = filter ?N (filter ?W (map normalizeKey ?en))"
    by (simp only: f)
  also have "\<dots> = filter ?W (filter ?N (map normalizeKey ?en))"
    by (rule filter_swap)
  also have "\<dots> = filter ?W (map normalizeKey (filter ?N ?en))"
    by (simp only: B)
  also have "\<dots> = filter ?W (map normalizeKey (filter ?N (map fst decl)))"
    by (simp only: ownPropertyOrder_others)
  also have "\<dots> = filter ?W (filter ?N (map normalizeKey (map fst decl)))"
    by (simp only: B)
  also have "\<dots> = filter ?N (filter ?W (map normalizeKey (map fst decl)))"
    by (rule filter_swap)
  finally show "filter (\<lambda>k. wildcards k = n \<and> \<not> isArrayIndex k) final =
         filter (\<lambda>k. wildcards k = n \<and> \<not> isArrayIndex k) (map normalizeKey (map fst decl))"
    by simp
  have "filter isArrayIndex final = filter isArrayIndex (filter (\<lambda>k. wildcards k = 0) final)"
    by (simp only: Z)
  also have "\<dots> = filter isArrayIndex (filter (\<lambda>k. wildcards k = 0) (map normalizeKey ?en))"
    by (simp only: f)
  also have "\<dots> = filter isArrayIndex (map normalizeKey ?en)"
    by (simp only: Z)
  also have "\<dots> = filter isArrayIndex ?en"
    by (simp only: B')
  finally show "filter isArrayIndex final =
                sort_key decimalValue (filter isArrayIndex (map fst decl))"
    by (simp only: ownPropertyOrder_indices)
qed

lemma run_declaredDocument:
  "fst (run declaredDocument) =
     Inr \<lparr> operations =
           [\<lparr> m_urlSuffix = [Const ''/pets''], m_tags = [], m_summary = None,
              m_description = None, m_externalDocs = None, m_operationId = None,
              m_responses =
                [\<lparr> r_key = ''200'', r_description = Some ''ok'', r_headers = [] \<rparr>,
                 \<lparr> r_key = ''404'', r_description = Some ''not found'', r_headers = [] \<rparr>,
                 \<lparr> r_key = ''4XX'', r_description = Some ''client error'', r_headers = [] \<rparr>,
                 \<lparr> r_key = ''2XX'', r_description = Some ''success'', r_headers = [] \<rparr>],
              m_parameters = [], m_deprecated = False,
              m_servers = [\<lparr> s_urlPrefix = [Const ''/''], s_description = None,
                             s_variables = [] \<rparr>] \<rparr>],
         tags = [] \<rparr>"
  by (simp add: declaredDocument_def declaredOperation_def declaredResponses_def
        ownPropertyOrder_def isArrayIndex_def decimalValue_def example_defs modeler_defs)

text \<open>
  Claim C9, as stated, fails: the document \<open>declaredDocument\<close> declares the response \<open>404\<close>
  before the response \<open>200\<close>, both without an \<open>X\<close>, and the method that \<open>run\<close> returns
  lists \<open>200\<close> before \<open>404\<close>. The keys of the \<open>responses\<close> object are array indices, which the
  object lists in numeric order.
\<close>

theorem declared_order_of_status_codes_is_lost:
  "map fst declaredResponses = [''404'', ''4XX'', ''200'', ''2XX''] \<and>
   wildcards ''404'' = wildcards ''200'' \<and>
   oo_responses declaredOperation = ownPropertyOrder declaredResponses \<and>
   fst (run declaredDocument) =
     Inr \<lparr> operations =
           [\<lparr> m_urlSuffix = [Const ''/pets''], m_tags = [], m_summary = None,
              m_description = None, m_externalDocs = None, m_operationId = None,
              m_responses =
                [\<lparr> r_key = ''200'', r_description = Some ''ok'', r_headers = [] \<rparr>,
                 \<lparr> r_key = ''404'', r_description = Some ''not found'', r_headers = [] \<rparr>,
                 \<lparr> r_key = ''4XX'', r_description = Some ''client error'', r_headers = [] \<rparr>,
                 \<lparr> r_key = ''2XX'', r_description = Some ''success'', r_headers = [] \<rparr>],
              m_parameters = [], m_deprecated = False,
              m_servers = [\<lparr> s_urlPrefix = [Const ''/''], s_description = None,
                             s_variables = [] \<rparr>] \<rparr>],
         tags = [] \<rparr>"
proof -
  have "map fst declaredResponses = [''404'', ''4XX'', ''200'', ''2XX'']"
    "wildcards ''404'' = wildcards ''200''"
    "oo_responses declaredOperation = ownPropertyOrder declaredResponses"
    by (simp_all add: declaredResponses_def declaredOperation_def wildcards_def example_defs)
  with run_declaredDocument show ?thesis by simp
qed

text \<open>
  Claim C9, amended. Among the responses of an assembled operation, those whose keys hold
  the same number \<open>n\<close> of \<open>X\<close> stand in the order in which the \<open>responses\<close> object lists its
  keys, for every \<open>n\<close>: the sort is by that number only, and stable. For a \<open>responses\<close>
  object declared as \<open>decl\<close>, the keys that are no array indices (patterns with an \<open>X\<close>,
  \<open>default\<close>, codes with a leading zero) therefore keep their declaration order within each
  class, whereas the array indices (\<open>200\<close>, \<open>404\<close>) stand in ascending numeric order,
  whatever order they are declared in. When \<open>run\<close> returns a model, this holds of the method
  of every operation the document declares.
\<close>

theorem equal_wildcards_keep_enumeration_order:
  "(\<forall>m n. fst (runOperation path ps pd sv pps op) = Inr m \<longrightarrow>
      filter (\<lambda>k. wildcards k = n) (map r_key (m_responses m)) =
      filter (\<lambda>k. wildcards k = n) (map (\<lambda>x. normalizeKey (fst x)) (oo_responses op))) \<and>
   (\<forall>m n. oo_responses op = ownPropertyOrder decl \<and>
      fst (runOperation path ps pd sv pps op) = Inr m \<longrightarrow>
      filter (\<lambda>k. wildcards k = n \<and> \<not> isArrayIndex k) (map r_key (m_responses m)) =
      filter (\<lambda>k. wildcards k = n \<and> \<not> isArrayIndex k) (map (\<lambda>x. normalizeKey (fst x)) decl) \<and>
      filter isArrayIndex (map r_key (m_responses m)) =
      sort_key decimalValue (filter isArrayIndex (map fst decl))) \<and>
   (\<forall>model rawPath po h.
      fst (run doc) = Inr model \<and> (rawPath, po) \<in> set (oa_paths doc) \<and>
      getOperation h po = Some op \<longrightarrow>
      (\<exists>m \<in> set (operations model).
         (\<exists>path' ps' pd' sv' pps'. fst (runOperation path' ps' pd' sv' pps' op) = Inr m) \<and>
         (\<forall>n. filter (\<lambda>k. wildcards k = n) (map r_key (m_responses m)) =
              filter (\<lambda>k. wildcards k = n) (map (\<lambda>x. normalizeKey (fst x)) (oo_responses op))) \<and>
         (oo_responses op = ownPropertyOrder decl \<longrightarrow>
            (\<forall>n. filter (\<lambda>k. wildcards k = n \<and> \<not> isArrayIndex k) (map r_key (m_responses m)) =
                 filter (\<lambda>k. wildcards k = n \<and> \<not> isArrayIndex k)
                   (map (\<lambda>x. normalizeKey (fst x)) decl)) \<and>
            filter isArrayIndex (map r_key (m_responses m)) =
            sort_key decimalValue (filter isArrayIndex (map fst decl)))))"
proof -
  have a: "\<forall>m n. fst (runOperation path ps pd sv pps op) = Inr m \<longrightarrow>
      filter (\<lambda>k. wildcards k = n) (map r_key (m_responses m)) =
      filter (\<lambda>k. wildcards k = n) (map (\<lambda>x. normalizeKey (fst x)) (oo_responses op))"
    using runOperation_response_keys(4) by blast
  have d: "(\<forall>n. filter (\<lambda>k. wildcards k = n \<and> \<not> isArrayIndex k) (map r_key (m_responses m)) =
               filter (\<lambda>k. wildcards k = n \<and> \<not> isArrayIndex k)
                 (map (\<lambda>x. normalizeKey (fst x)) decl)) \<and>
           filter isArrayIndex (map r_key (m_responses m)) =
           sort_key decimalValue (filter isArrayIndex (map fst decl))"
    if o: "oo_responses op = ownPropertyOrder decl"
      and r: "fst (runOperation path' ps' pd' sv' pps' op) = Inr m"
    for path' ps' pd' sv' pps' m
  proof -
    have f: "filter (\<lambda>k. wildcards k = n) (map r_key (m_responses m)) =
             filter (\<lambda>k. wildcards k = n) (map normalizeKey (map fst (ownPropertyOrder decl)))"
      for n
      using runOperation_response_keys(4) [OF r, of n] by (simp add: o comp_def)
    have e: "map normalizeKey (map fst decl) = map (\<lambda>x. normalizeKey (fst x)) decl"
      by simp
    from enumerated_final [of "map r_key (m_responses m)" decl, OF f] show ?thesis
      unfolding e by blast
  qed
  have b: "\<forall>m n. oo_responses op = ownPropertyOrder decl \<and>
      fst (runOperation path ps pd sv pps op) = Inr m \<longrightarrow>
      filter (\<lambda>k. wildcards k = n \<and> \<not> isArrayIndex k) (map r_key (m_responses m)) =
      filter (\<lambda>k. wildcards k = n \<and> \<not> isArrayIndex k) (map (\<lambda>x. normalizeKey (fst x)) decl) \<and>
      filter isArrayIndex (map r_key (m_responses m)) =
      sort_key decimalValue (filter isArrayIndex (map fst decl))"
    using d by blast
  have c: "\<exists>m \<in> set (operations model).
         (\<exists>path' ps' pd' sv' pps'. fst (runOperation path' ps' pd' sv' pps' op) = Inr m) \<and>
         (\<forall>n. filter (\<lambda>k. wildcards k = n) (map r_key (m_responses m)) =
              filter (\<lambda>k. wildcards k = n) (map (\<lambda>x. normalizeKey (fst x)) (oo_responses op))) \<and>
         (oo_responses op = ownPropertyOrder decl \<longrightarrow>
            (\<forall>n. filter (\<lambda>k. wildcards k = n \<and> \<not> isArrayIndex k) (map r_key (m_responses m)) =
                 filter (\<lambda>k. wildcards k = n \<and> \<not> isArrayIndex k)
                   (map (\<lambda>x. normalizeKey (fst x)) decl)) \<and>
            filter isArrayIndex (map r_key (m_responses m)) =
            sort_key decimalValue (filter isArrayIndex (map fst decl)))"
    if r: "fst (run doc) = Inr model" and p: "(rawPath, po) \<in> set (oa_paths doc)"
      and g: "getOperation h po = Some op"
    for model rawPath po h
  proof -
    from run_reaches [OF r p g] obtain path' ps' pd' sv' pps' m where
      ro: "fst (runOperation path' ps' pd' sv' pps' op) = Inr m" and m: "m \<in> set (operations model)"
      by blast
    from runOperation_response_keys(4) [OF ro] d [OF _ ro] ro m show ?thesis by blast
  qed
  from a b c show ?thesis by blast
qed

theorem equal_wildcards_keep_enumeration_order_witness:
  "oo_responses declaredOperation = ownPropertyOrder declaredResponses \<and>
   map fst declaredResponses = [''404'', ''4XX'', ''200'', ''2XX''] \<and>
   fst (runOperation [Const ''/pets''] None None [] [] declaredOperation) =
     Inr \<lparr> m_urlSuffix = [Const ''/pets''], m_tags = [], m_summary = None,
           m_description = None, m_externalDocs = None, m_operationId = None,
           m_responses =
             [\<lparr> r_key = ''200'', r_description = Some ''ok'', r_headers = [] \<rparr>,
              \<lparr> r_key = ''404'', r_description = Some ''not found'', r_headers = [] \<rparr>,
              \<lparr> r_key = ''4XX'', r_description = Some ''client error'', r_headers = [] \<rparr>,
              \<lparr> r_key = ''2XX'', r_description = Some ''success'', r_headers = [] \<rparr>],
           m_parameters = [], m_deprecated = False, m_servers = [] \<rparr> \<and>
   filter (\<lambda>k. wildcards k = 2 \<and> \<not> isArrayIndex k) [''200'', ''404'', ''4XX'', ''2XX''] =
   filter (\<lambda>k. wildcards k = 2 \<and> \<not> isArrayIndex k)
     (map (\<lambda>x. normalizeKey (fst x)) declaredResponses) \<and>
   filter (\<lambda>k. wildcards k = 2 \<and> \<not> isArrayIndex k) [''200'', ''404'', ''4XX'', ''2XX''] =
     [''4XX'', ''2XX''] \<and>
   filter isArrayIndex [''200'', ''404'', ''4XX'', ''2XX''] =
   sort_key decimalValue (filter isArrayIndex (map fst declaredResponses)) \<and>
   filter isArrayIndex [''200'', ''404'', ''4XX'', ''2XX''] = [''200'', ''404''] \<and>
   (''/pets'', plainPathItem\<lparr> pi_get := Some declaredOperation \<rparr>)
     \<in> set (oa_paths declaredDocument)"
proof -
  have o: "oo_responses declaredOperation = ownPropertyOrder declaredResponses"
    "map fst declaredResponses = [''404'', ''4XX'', ''200'', ''2XX'']"
    by (simp_all add: declaredOperation_def declaredResponses_def example_defs)
  have ev: "fst (runOperation [Const ''/pets''] None None [] [] declaredOperation) =
     Inr \<lparr> m_urlSuffix = [Const ''/pets''], m_tags = [], m_summary = None,
           m_description = None, m_externalDocs = None, m_operationId = None,
           m_responses =
             [\<lparr> r_key = ''200'', r_description = Some ''ok'', r_headers = [] \<rparr>,
              \<lparr> r_key = ''404'', r_description = Some ''not found'', r_headers = [] \<rparr>,
              \<lparr> r_key = ''4XX'', r_description = Some ''client error'', r_headers = [] \<rparr>,
              \<lparr> r_key = ''2XX'', r_description = Some ''success'', r_headers = [] \<rparr>],
           m_parameters = [], m_deprecated = False, m_servers = [] \<rparr>"
    by (simp add: declaredOperation_def declaredResponses_def ownPropertyOrder_def
          isArrayIndex_def decimalValue_def example_defs modeler_defs)
  have f: "filter (\<lambda>k. wildcards k = 2 \<and> \<not> isArrayIndex k) [''200'', ''404'', ''4XX'', ''2XX''] =
     [''4XX'', ''2XX'']"
    "filter isArrayIndex [''200'', ''404'', ''4XX'', ''2XX''] = [''200'', ''404'']"
    by (simp_all add: wildcards_def isArrayIndex_def decimalValue_def)
  have mem: "(''/pets'', plainPathItem\<lparr> pi_get := Some declaredOperation \<rparr>)
               \<in> set (oa_paths declaredDocument)"
    by (simp add: declaredDocument_def example_defs)
  note t = equal_wildcards_keep_enumeration_order
             [of "[Const ''/pets'']" None None "[]" "[]" declaredOperation declaredResponses
                 declaredDocument]
  let ?m = "\<lparr> m_urlSuffix = [Const ''/pets''], m_tags = [], m_summary = None,
               m_description = None, m_externalDocs = None, m_operationId = None,
               m_responses =
                 [\<lparr> r_key = ''200'', r_description = Some ''ok'', r_headers = [] \<rparr>,
                  \<lparr> r_key = ''404'', r_description = Some ''not found'', r_headers = [] \<rparr>,
                  \<lparr> r_key = ''4XX'', r_description = Some ''client error'', r_headers = [] \<rparr>,
                  \<lparr> r_key = ''2XX'', r_description = Some ''success'', r_headers = [] \<rparr>],
               m_parameters = [], m_deprecated = False, m_servers = [] \<rparr>"
  have k: "map r_key (m_responses ?m) = [''200'', ''404'', ''4XX'', ''2XX'']"
    by simp
  from t o(1) ev
  have "filter (\<lambda>k. wildcards k = 2 \<and> \<not> isArrayIndex k) (map r_key (m_responses ?m)) =
        filter (\<lambda>k. wildcards k = 2 \<and> \<not> isArrayIndex k)
          (map (\<lambda>x. normalizeKey (fst x)) declaredResponses) \<and>
        filter isArrayIndex (map r_key (m_responses ?m)) =
        sort_key decimalValue (filter isArrayIndex (map fst declaredResponses))"
    by blast
  then have h: "filter (\<lambda>k. wildcards k = 2 \<and> \<not> isArrayIndex k)
                  [''200'', ''404'', ''4XX'', ''2XX''] =
        filter (\<lambda>k. wildcards k = 2 \<and> \<not> isArrayIndex k)
          (map (\<lambda>x. normalizeKey (fst x)) declaredResponses) \<and>
        filter isArrayIndex [''200'', ''404'', ''4XX'', ''2XX''] =
        sort_key decimalValue (filter isArrayIndex (map fst declaredResponses))"
    unfolding k .
  from o ev h f mem show ?thesis by blast
qed

section \<open>The cross-check of path parameters\<close>

lemma parseHeaders_error:
  "parseHeaders hs = (Inl e, hs') \<Longrightarrow> e = AllowEmptyValueNotQuery \<or> e = PathParameterNotRequired"
proof (induction hs arbitrary: hs')
  case Nil
  then show ?case by simp
next
  case (Cons a hs)
  obtain n h where a: "a = (n, h)" by (cases a)
  from Cons show ?case
    unfolding a
    by (auto simp: Let_def parseParameter_def split: if_splits sum.splits prod.splits)
qed

lemma parseResponses_error:
  "parseResponses rs = (Inl e, rs') \<Longrightarrow> e \<noteq> PathParametersMismatch"
proof (induction rs arbitrary: rs')
  case Nil
  then show ?case by simp
next
  case (Cons a rs)
  obtain k ro where a: "a = (k, ro)" by (cases a)
  from Cons show ?case
    unfolding a
    by (auto simp: Let_def split: if_splits sum.splits prod.splits option.splits
        dest: parseHeaders_error)
qed

text \<open>
  Claim C6. For an operation whose servers and parameters parse, under a path item whose
  parameter list has passed its check, assembling the operation throws the error
  \<open>path parameters mismatch\<close> exactly when the sorted names of the merged parameters with
  location \<open>path\<close> differ from the sorted placeholder names of the path template. When
  \<open>run\<close> returns a model, the two lists are equal for the method of every operation the
  document declares.
\<close>

theorem path_parameters_crosscheck:
  "(parseServers (oo_servers op) = Inr os \<and> parseParameters (oo_parameters op) = Inr ops \<and>
    checkParameters pps \<longrightarrow>
      (fst (runOperation path ps pd sv pps op) = Inl PathParametersMismatch \<longleftrightarrow>
       pathParamNames (mergeParameters pps (case ops of Some l \<Rightarrow> l | None \<Rightarrow> [])) \<noteq>
       pathParamsExpected path)) \<and>
   (\<forall>model rawPath po h.
      fst (run doc) = Inr model \<and> (rawPath, po) \<in> set (oa_paths doc) \<and>
      getOperation h po = Some op \<longrightarrow>
      (\<exists>path' m. parsePath rawPath = Inr path' \<and> m \<in> set (operations model) \<and>
         m_urlSuffix m = path' \<and>
         pathParamNames (m_parameters m) = pathParamsExpected path'))"
proof -
  have a: "fst (runOperation path ps pd sv pps op) = Inl PathParametersMismatch \<longleftrightarrow>
       pathParamNames (mergeParameters pps (case ops of Some l \<Rightarrow> l | None \<Rightarrow> [])) \<noteq>
       pathParamsExpected path"
    if os: "parseServers (oo_servers op) = Inr os"
      and ops: "parseParameters (oo_parameters op) = Inr ops"
      and chk: "checkParameters pps"
  proof (cases "namesMismatch
                  (pathParamNames (mergeParameters pps (case ops of Some l \<Rightarrow> l | None \<Rightarrow> [])))
                  (pathParamsExpected path)")
    case True
    with os ops chk show ?thesis
      by (simp add: runOperation_def Let_def namesMismatch_iff)
  next
    case False
    obtain r rs' where pr: "parseResponses (oo_responses op) = (r, rs')"
      by (cases "parseResponses (oo_responses op)")
    have "r \<noteq> Inl PathParametersMismatch"
      using parseResponses_error [of "oo_responses op" PathParametersMismatch rs'] pr by auto
    with os ops chk False pr show ?thesis
      by (cases r) (simp_all add: runOperation_def Let_def namesMismatch_iff)
  qed
  have b: "\<exists>path' m. parsePath rawPath = Inr path' \<and> m \<in> set (operations model) \<and>
         m_urlSuffix m = path' \<and>
         pathParamNames (m_parameters m) = pathParamsExpected path'"
    if r: "fst (run doc) = Inr model" and p: "(rawPath, po) \<in> set (oa_paths doc)"
      and g: "getOperation h po = Some op"
    for model rawPath po h
  proof -
    from run_reaches [OF r p g] obtain path' psv pps' m where
      pp: "parsePath rawPath = Inr path'" and
      ro: "fst (runOperation path' (pi_summary po) (pi_description po) psv pps' op) = Inr m" and
      m: "m \<in> set (operations model)"
      by blast
    from ro obtain ops' where
      "\<not> namesMismatch
           (pathParamNames (mergeParameters pps' (case ops' of Some l \<Rightarrow> l | None \<Rightarrow> [])))
           (pathParamsExpected path')"
      "m_parameters m = mergeParameters pps' (case ops' of Some l \<Rightarrow> l | None \<Rightarrow> [])"
      "m_urlSuffix m = path'"
      by (rule runOperation_Inr)
    with pp m show ?thesis
      by (auto simp: namesMismatch_iff)
  qed
  from a b show ?thesis by blast
qed

theorem path_parameters_crosscheck_witness:
  "parseServers (oo_servers petByIdOperation) = Inr None \<and>
   parseParameters (oo_parameters petByIdOperation) =
     Inr (Some [\<lparr> h_name = ''id'', h_description = None, h_required = True,
                   h_deprecated = False, h_locationQueryAllowEmptyValue = None,
                   p_location = InPath \<rparr>]) \<and>
   checkParameters [] \<and>
   pathParamsExpected [Const ''/pets/'', Param ''id''] = [''id''] \<and>
   fst (runOperation [Const ''/pets/'', Param ''id''] None None [] [] petByIdOperation) \<noteq>
     Inl PathParametersMismatch \<and>
   fst (runOperation [Const ''/pets/'', Param ''id''] None None [] []
          (plainOperation [(''200'', plainResponse)])) = Inl PathParametersMismatch \<and>
   (''/pets/{id}'', plainPathItem\<lparr> pi_get := Some petByIdOperation \<rparr>)
     \<in> set (oa_paths petByIdDocument) \<and>
   map_sum id (\<lambda>m. map (\<lambda>x. map h_name (m_parameters x)) (operations m))
     (fst (run petByIdDocument)) = Inr [[''id'']] \<and>
   fst (run undeclaredIdDocument) = Inl PathParametersMismatch"
proof -
  have a: "parseServers (oo_servers petByIdOperation) = Inr None"
    by (simp add: petByIdOperation_def example_defs)
  have b: "parseParameters (oo_parameters petByIdOperation) =
     Inr (Some [\<lparr> h_name = ''id'', h_description = None, h_required = True,
                   h_deprecated = False, h_locationQueryAllowEmptyValue = None,
                   p_location = InPath \<rparr>])"
    by (simp add: petByIdOperation_def example_defs modeler_defs)
  have c: "checkParameters []"
    by (simp add: checkParameters_def)
  have d: "pathParamsExpected [Const ''/pets/'', Param ''id''] = [''id'']"
    by (simp add: pathParamsExpected_def)
  have a': "parseServers (oo_servers (plainOperation [(''200'', plainResponse)])) = Inr None"
    by (simp add: example_defs)
  have b': "parseParameters (oo_parameters (plainOperation [(''200'', plainResponse)])) = Inr None"
    by (simp add: example_defs parseParameters_def)
  have e: "fst (runOperation [Const ''/pets/'', Param ''id''] None None [] [] petByIdOperation) \<noteq>
     Inl PathParametersMismatch"
    using path_parameters_crosscheck
            [of petByIdOperation None _ "[]" "[Const ''/pets/'', Param ''id'']" None None "[]"]
      a b c
    by (simp add: d mergeParameters_def mergeParameter_def pathParamNames_def)
  have f: "fst (runOperation [Const ''/pets/'', Param ''id''] None None [] []
          (plainOperation [(''200'', plainResponse)])) = Inl PathParametersMismatch"
    using path_parameters_crosscheck
            [of "plainOperation [(''200'', plainResponse)]" None None "[]"
                "[Const ''/pets/'', Param ''id'']" None None "[]"]
      a' b' c
    by (simp add: d mergeParameters_def pathParamNames_def)
  have g: "map_sum id (\<lambda>m. map (\<lambda>x. map h_name (m_parameters x)) (operations m))
     (fst (run petByIdDocument)) = Inr [[''id'']]"
    by (simp add: petByIdDocument_def petByIdOperation_def example_defs modeler_defs)
  have h: "fst (run undeclaredIdDocument) = Inl PathParametersMismatch"
    by (simp add: undeclaredIdDocument_def example_defs modeler_defs)
  have i: "(''/pets/{id}'', plainPathItem\<lparr> pi_get := Some petByIdOperation \<rparr>)
     \<in> set (oa_paths petByIdDocument)"
    by (simp add: petByIdDocument_def example_defs)
  from a b c d e f g h i show ?thesis by blast
qed

section \<open>The reference resolver\<close>

lemma first_segment_hash:
  "js_split CHR ''/'' s = p # ps \<Longrightarrow> startsWithHash p = startsWithHash s"
  by (cases s) (auto simp: startsWithHash_def split: if_splits list.splits)

lemma resolveHit_invalid:
  assumes "refOf (snd hit) = Some (JStr sourceRef)"
  shows "resolveHit evalJS stringify hit w = Inl InvalidSyntaxOfLocalReference \<longleftrightarrow>
         \<not> startsWithHash sourceRef"
proof -
  obtain p ps where sp: "js_split CHR ''/'' sourceRef = p # ps"
    using js_split_not_Nil [of "CHR ''/''" sourceRef]
    by (cases "js_split CHR ''/'' sourceRef") auto
  from first_segment_hash [OF sp] assms sp show ?thesis
    by (auto simp: resolveHit_def Let_def split: sum.splits)
qed

lemma resolveHits_append:
  "resolveHits evalJS stringify (hs @ hs') w =
   (case resolveHits evalJS stringify hs w of
      Inl e \<Rightarrow> Inl e
    | Inr w' \<Rightarrow> resolveHits evalJS stringify hs' w')"
  by (induction hs arbitrary: w) (auto split: sum.splits)

text \<open>
  Claim C7. For a node whose \<open>$ref\<close> is the string \<open>sourceRef\<close>: the first segment of
  \<open>sourceRef\<close> starts with \<open>#\<close> exactly when \<open>sourceRef\<close> does; processing the node throws
  \<open>invalid syntax of local reference\<close> exactly when it does not; and when the nodes before
  it have been processed without an error, \<open>resolve\<close> then ends with that error.
\<close>

theorem non_local_reference_is_rejected:
  assumes "refOf (snd hit) = Some (JStr sourceRef)"
  shows "(\<forall>p ps. js_split CHR ''/'' sourceRef = p # ps \<longrightarrow>
            startsWithHash p = startsWithHash sourceRef) \<and>
         (resolveHit evalJS stringify hit w = Inl InvalidSyntaxOfLocalReference \<longleftrightarrow>
            \<not> startsWithHash sourceRef) \<and>
         (\<forall>hs rest w0. resolveHits evalJS stringify hs w0 = Inr w \<and> \<not> startsWithHash sourceRef \<longrightarrow>
            resolveHits evalJS stringify (hs @ hit # rest) w0 =
              Inl InvalidSyntaxOfLocalReference)"
proof -
  have a: "\<forall>p ps. js_split CHR ''/'' sourceRef = p # ps \<longrightarrow>
            startsWithHash p = startsWithHash sourceRef"
    using first_segment_hash by blast
  have b: "resolveHit evalJS stringify hit w = Inl InvalidSyntaxOfLocalReference \<longleftrightarrow>
            \<not> startsWithHash sourceRef"
    by (rule resolveHit_invalid [OF assms])
  have c: "\<forall>hs rest w0. resolveHits evalJS stringify hs w0 = Inr w \<and> \<not> startsWithHash sourceRef \<longrightarrow>
            resolveHits evalJS stringify (hs @ hit # rest) w0 =
              Inl InvalidSyntaxOfLocalReference"
    using b by (auto simp: resolveHits_append)
  from a b c show ?thesis by blast
qed

theorem non_local_reference_is_rejected_witness:
  "refOf (snd remoteHit) = Some (JStr ''other.yaml#/components/schemas/Pet'') \<and>
   \<not> startsWithHash ''other.yaml#/components/schemas/Pet'' \<and>
   resolveHit recordingEval (\<lambda>p. ''$.components.schemas.Pets.items'') remoteHit [] =
     Inl InvalidSyntaxOfLocalReference \<and>
   refOf (snd localHit) = Some (JStr ''#/components/schemas/Pet'') \<and>
   startsWithHash ''#/components/schemas/Pet'' \<and>
   resolveHit recordingEval (\<lambda>p. ''$.components.schemas.Pets.items'') localHit [] \<noteq>
     Inl InvalidSyntaxOfLocalReference \<and>
   map_sum id length
     (resolveHit recordingEval (\<lambda>p. ''$.components.schemas.Pets.items'') localHit []) = Inr 2 \<and>
   resolveHits recordingEval (\<lambda>p. ''$.components.schemas.Pets.items'')
     ([localHit] @ remoteHit # [localHit]) [] = Inl InvalidSyntaxOfLocalReference"
proof -
  have a: "refOf (snd remoteHit) = Some (JStr ''other.yaml#/components/schemas/Pet'')"
    by (simp add: remoteHit_def refOf_def)
  have b: "\<not> startsWithHash ''other.yaml#/components/schemas/Pet''"
    by (simp add: startsWithHash_def)
  have c: "refOf (snd localHit) = Some (JStr ''#/components/schemas/Pet'')"
    by (simp add: localHit_def refOf_def)
  have d: "startsWithHash ''#/components/schemas/Pet''"
    by (simp add: startsWithHash_def)
  have e: "map_sum id length
     (resolveHit recordingEval (\<lambda>p. ''$.components.schemas.Pets.items'') localHit []) = Inr 2"
    by (simp add: resolveHit_def localHit_def refOf_def recordingEval_def startsWithHash_def
          Let_def)
  then obtain w where w: "resolveHits recordingEval (\<lambda>p. ''$.components.schemas.Pets.items'')
     [localHit] [] = Inr w"
    by (cases "resolveHit recordingEval (\<lambda>p. ''$.components.schemas.Pets.items'') localHit []")
       auto
  note r = non_local_reference_is_rejected
             [OF a, of recordingEval "\<lambda>p. ''$.components.schemas.Pets.items''"]
  note l = non_local_reference_is_rejected
             [OF c, of recordingEval "\<lambda>p. ''$.components.schemas.Pets.items''" "[]"]
  from r [of "[]"] b
  have f: "resolveHit recordingEval (\<lambda>p. ''$.components.schemas.Pets.items'') remoteHit [] =
     Inl InvalidSyntaxOfLocalReference" by blast
  from l d
  have g: "resolveHit recordingEval (\<lambda>p. ''$.components.schemas.Pets.items'') localHit [] \<noteq>
     Inl InvalidSyntaxOfLocalReference" by blast
  from r [of w] b w
  have h: "resolveHits recordingEval (\<lambda>p. ''$.components.schemas.Pets.items'')
     ([localHit] @ remoteHit # [localHit]) [] = Inl InvalidSyntaxOfLocalReference" by blast
  from a b c d e f g h show ?thesis by blast
qed

lemma descendants_children:
  "(p, d) \<in> set (descendants r v) \<Longrightarrow> (k, c) \<in> set (children d) \<Longrightarrow>
   (p @ [k], c) \<in> set (descendants r v)"
proof (induction r v arbitrary: p d rule: descendants.induct)
  case (1 r v)
  from "1.prems"(1) consider
      (direct) k0 where "(k0, d) \<in> set (children v)" "p = r @ [k0]"
    | (deeper) k0 c0 where "(k0, c0) \<in> set (children v)"
        "(p, d) \<in> set (descendants (r @ [k0]) c0)"
    by (subst (asm) descendants.simps) auto
  then show ?case
  proof cases
    case direct
    have "(p @ [k], c) \<in> set (descendants (r @ [k0]) d)"
      using "1.prems"(2) direct(2) by (subst descendants.simps) force
    with direct(1) show ?thesis
      by (subst descendants.simps) force
  next
    case deeper
    have "(p @ [k], c) \<in> set (descendants (r @ [k0]) c0)"
      by (rule "1.IH" [OF deeper(1) _ deeper(2) "1.prems"(2)]) simp
    with deeper(1) show ?thesis
      by (subst descendants.simps) force
  qed
qed

lemma nodes_without_refs: "\<not> containsRef doc \<Longrightarrow> nodes doc = []"
proof -
  assume nr: "\<not> containsRef doc"
  have "\<not> hasRef c"
    if "(p, d) \<in> set (descendants [] doc)" "(k, c) \<in> set (children d)" for p d k c
  proof -
    from that have "(p @ [k], c) \<in> set (descendants [] doc)" by (rule descendants_children)
    with nr have "refOf c = None"
      by (auto simp: containsRef_def list_ex_iff)
    then show ?thesis by (simp add: hasRef_def)
  qed
  then show ?thesis
    by (auto simp: nodes_def filter_empty_conv)
qed

text \<open>
  Claim C10. On a document in which no value has a \<open>$ref\<close> property, the query finds no
  node, the loop body is not entered, and \<open>resolve\<close> returns with the heap as it was,
  whatever \<open>eval\<close> would do.
\<close>

theorem resolve_without_refs_changes_nothing:
  "\<not> containsRef doc \<Longrightarrow> nodes doc = [] \<and> resolve evalJS stringify doc w = Inr w"
  by (simp add: resolve_def nodes_without_refs)

theorem resolve_without_refs_changes_nothing_witness:
  "\<not> containsRef plainJsonDocument \<and>
   resolve throwingEval (\<lambda>p. []) plainJsonDocument [''the graph''] = Inr [''the graph'']"
proof -
  have a: "\<not> containsRef plainJsonDocument"
    by code_simp
  from resolve_without_refs_changes_nothing [OF a, of throwingEval "\<lambda>p. []" "[''the graph'']"] a
  show ?thesis by simp
qed

section \<open>The document after the modeling pass\<close>


































end
